theory Spec2Isabelle
  imports Complex_Main "HOL-Library.Sublist" "HOL-Library.AList"
begin

section \<open>DENISE Black Edition, Python interface: configuration and stability engine\<close>

text \<open>
  A shallow embedding of the class \<open>Denise\<close> of \<open>pyapi_denise.py\<close>: the parameter file
  parser and writer, the stability, dispersion and domain decomposition checks, the FWI
  workflow writer and the run methods \<open>forward\<close>, \<open>fwi\<close> and \<open>_engine\<close>.

  Conventions of the embedding.
  \<^item> A Python \<open>int\<close> is an \<open>int\<close>. A finite Python or numpy float is the \<open>real\<close> it
    denotes. In the stability check and in the number of time steps, whose values the
    program returns and stores, every float operation is the exact operation followed by
    the rounding of IEEE 754 binary64 (section \<open>Binary64 arithmetic\<close>). The dispersion
    check, whose value is only printed, is computed exactly. Where numpy would produce
    \<open>nan\<close> or \<open>inf\<close> the model takes the branch the source takes on that value (it is
    written out at each such place).
  \<^item> A \<open>str\<close> is a \<open>string\<close>; each \<open>char\<close> is one code point below 256.
  \<^item> An exception is a value \<open>Inl e\<close> of the result type \<open>py_error + 'a\<close>.
    \<open>Unmodelled\<close> is no exception of Python: it marks an input on which the model does
    not follow the program.
  \<^item> The attributes of \<open>self\<close> that a method reads are its arguments; the attributes
    it assigns are part of its result.
\<close>

subsection \<open>Exceptions\<close>

datatype py_error =
    AssertionError string
  | ZeroDivisionError
  | IndexError
  | ValueError
  | UnboundLocalError
  | AttributeError
  | Unmodelled

text \<open>The tab and the newline character.\<close>

abbreviation TAB :: char where "TAB \<equiv> CHR 0x09"
abbreviation NL :: char where "NL \<equiv> CHR 0x0A"

subsection \<open>Domain decomposition check\<close>

text \<open>
  \<open>_check_domain_decomp\<close>: the local function \<open>check(s)\<close> computes
  \<open>para["N" + s] % para["NPROC" + s]\<close> and asserts that it is zero; it is called for
  \<open>'X'\<close> and then for \<open>'Y'\<close>. Python's \<open>%\<close> on integers takes the sign of the divisor,
  as \<open>mod\<close> on \<open>int\<close> does, and raises on a zero divisor.
\<close>

definition check :: "string \<Rightarrow> int \<Rightarrow> int \<Rightarrow> py_error + unit" where
  "check s n nproc =
     (if nproc = 0 then Inl ZeroDivisionError
      else if n mod nproc = 0 then Inr ()
      else Inl (AssertionError (''Error!!! Make sure N'' @ s @ '' % NPROC'' @ s @ '' = 0'')))"

definition check_domain_decomp :: "int \<Rightarrow> int \<Rightarrow> int \<Rightarrow> int \<Rightarrow> py_error + unit" where
  "check_domain_decomp nx ny nprocx nprocy =
     (case check ''X'' nx nprocx of
        Inl e \<Rightarrow> Inl e
      | Inr _ \<Rightarrow> check ''Y'' ny nprocy)"

subsection \<open>Indexing and reductions of numpy and Python\<close>

text \<open>
  Indexing a sequence of length \<open>n\<close> with \<open>i\<close>: \<open>0 \<le> i < n\<close> counts from the front,
  \<open>-n \<le> i < 0\<close> from the back, anything else raises \<open>IndexError\<close>.
\<close>

definition py_item :: "'a list \<Rightarrow> int \<Rightarrow> py_error + 'a" where
  "py_item xs i =
     (if 0 \<le> i \<and> i < int (length xs) then Inr (xs ! nat i)
      else if i < 0 \<and> - int (length xs) \<le> i then Inr (xs ! nat (int (length xs) + i))
      else Inl IndexError)"

text \<open>\<open>np.min\<close> and \<open>np.max\<close> of a one-dimensional sequence raise \<open>ValueError\<close> on an
  empty one.\<close>

definition np_min :: "real list \<Rightarrow> py_error + real" where
  "np_min a = (case a of [] \<Rightarrow> Inl ValueError | x # xs \<Rightarrow> Inr (fold min xs x))"

definition np_max :: "real list \<Rightarrow> py_error + real" where
  "np_max a = (case a of [] \<Rightarrow> Inl ValueError | x # xs \<Rightarrow> Inr (fold max xs x))"

text \<open>\<open>(int)(self.FD_ORDER / 2)\<close>: true division, then truncation toward zero.\<close>

definition half_order :: "int \<Rightarrow> int" where
  "half_order fd_order = (if 0 \<le> fd_order then fd_order div 2 else - ((- fd_order) div 2))"

subsection \<open>Velocity model\<close>

text \<open>A two-dimensional numpy array: its shape and its entries in row-major order.\<close>

record ndarray =
  n_rows :: nat
  n_cols :: nat
  flat :: "real list"

record Model =
  vp :: ndarray
  vs :: ndarray
  rho :: ndarray
  dx :: real

text \<open>\<open>a[np.nonzero(a)]\<close>: the entries that are not zero, in order.\<close>

definition nonzero :: "ndarray \<Rightarrow> real list" where
  "nonzero a = filter (\<lambda>v. v \<noteq> 0) (flat a)"

subsection \<open>Binary64 arithmetic\<close>

text \<open>
  A finite double is the real number it denotes. An operation of IEEE 754 binary64
  (\<open>+\<close>, \<open>*\<close>, \<open>/\<close>, \<open>sqrt\<close>, and the conversion of a decimal literal) returns the exact
  result rounded to the nearest number with 53 significant bits, a tie going to the one
  with an even significand.

  \<open>round_even\<close> rounds a real to the nearest integer, ties to even. \<open>rnd64 x\<close> scales \<open>x\<close>
  by the power of two that brings its magnitude into \<open>[2^52, 2^53)\<close>, rounds, and scales
  back: it is the binary64 rounding with an exponent range that is not bounded.
\<close>

definition round_even :: "real \<Rightarrow> int" where
  "round_even y =
     (if y - of_int \<lfloor>y\<rfloor> < 1 / 2 then \<lfloor>y\<rfloor>
      else if 1 / 2 < y - of_int \<lfloor>y\<rfloor> then \<lfloor>y\<rfloor> + 1
      else if even \<lfloor>y\<rfloor> then \<lfloor>y\<rfloor> else \<lfloor>y\<rfloor> + 1)"

definition rnd64 :: "real \<Rightarrow> real" where
  "rnd64 x =
     (if x = 0 then 0
      else of_int (round_even (x / 2 powr (of_int \<lfloor>log 2 \<bar>x\<bar>\<rfloor> - 52)))
             * 2 powr (of_int \<lfloor>log 2 \<bar>x\<bar>\<rfloor> - 52))"

text \<open>
  The exponent of a double is bounded: an exact result of magnitude below \<open>2^-1022\<close> is
  rounded on the coarser grid of the subnormal numbers, and one that rounds to \<open>2^1024\<close>
  or more becomes \<open>inf\<close>. \<open>in_range64 x\<close> says that the exact result \<open>x\<close> is zero or stays
  clear of both, so that the operation returns \<open>rnd64 x\<close>.

  \<open>fl x f\<close> is a float operation with the exact result \<open>x\<close>, followed by the rest \<open>f\<close> of
  the computation, which receives the rounded value. Outside the range above the model
  does not follow the program and stops with \<open>Unmodelled\<close>.
\<close>

definition in_range64 :: "real \<Rightarrow> bool" where
  "in_range64 x \<longleftrightarrow> x = 0 \<or> (1 / 2 ^ 1022 \<le> \<bar>x\<bar> \<and> \<bar>rnd64 x\<bar> < 2 ^ 1024)"

definition fl :: "real \<Rightarrow> (real \<Rightarrow> py_error + 'a) \<Rightarrow> py_error + 'a" where
  "fl x f = (if in_range64 x then f (rnd64 x) else Inl Unmodelled)"

text \<open>
  \<open>np.sum\<close> of a one-dimensional array of fewer than eight doubles: the entries are added
  to the accumulator one by one, from the first to the last, starting from zero.
\<close>

definition np_sum :: "real list \<Rightarrow> real" where
  "np_sum a = foldl (\<lambda>s c. rnd64 (s + c)) 0 a"

subsection \<open>Stability check\<close>

text \<open>The FD operator weights of \<open>_check_stability\<close>: Taylor coefficients, and Holberg
  coefficients for a maximum relative error of 0.1, 0.5, 1 and 3 per cent.\<close>

definition hc_taylor :: "real list list" where
  "hc_taylor =
    [[1, 0, 0, 0, 0, 0],
     [9 / 8, - 1 / 24, 0, 0, 0, 0],
     [75 / 64, - 25 / 384, 3 / 640, 0, 0, 0],
     [1225 / 1024, - 245 / 3072, 49 / 5120, - 5 / 7168, 0, 0],
     [19845 / 16384, - 735 / 8192, 567 / 40960, - 405 / 229376, 35 / 294912, 0],
     [160083 / 131072, - 12705 / 131072, 22869 / 1310720, - 5445 / 1835008,
      847 / 2359296, - 63 / 2883584]]"

definition hc_holberg_01 :: "real list list" where
  "hc_holberg_01 =
    [[1.001, 0, 0, 0, 0, 0],
     [1.1382, - 0.046414, 0, 0, 0, 0],
     [1.1965, - 0.078804, 0.0081781, 0, 0, 0],
     [1.2257, - 0.099537, 0.018063, - 0.0026274, 0, 0],
     [1.2415, - 0.11231, 0.026191, - 0.0064682, 0.001191, 0],
     [1.2508, - 0.12034, 0.032131, - 0.010142, 0.0029857, - 0.00066667]]"

definition hc_holberg_05 :: "real list list" where
  "hc_holberg_05 =
    [[1.005, 0, 0, 0, 0, 0],
     [1.1534, - 0.052806, 0, 0, 0, 0],
     [1.2111, - 0.088313, 0.011768, 0, 0, 0],
     [1.2367, - 0.10815, 0.023113, - 0.0046905, 0, 0],
     [1.2496, - 0.11921, 0.03113, - 0.0093272, 0.0025161, 0],
     [1.2568, - 0.12573, 0.036423, - 0.013132, 0.0047484, - 0.0015979]]"

definition hc_holberg_10 :: "real list list" where
  "hc_holberg_10 =
    [[1.01, 0, 0, 0, 0, 0],
     [1.164, - 0.057991, 0, 0, 0, 0],
     [1.2192, - 0.09407, 0.014608, 0, 0, 0],
     [1.2422, - 0.11269, 0.02614, - 0.0064054, 0, 0],
     [1.2534, - 0.12257, 0.033755, - 0.011081, 0.0036784, 0],
     [1.2596, - 0.12825, 0.03855, - 0.014763, 0.0058619, - 0.0024538]]"

definition hc_holberg_30 :: "real list list" where
  "hc_holberg_30 =
    [[1.03, 0, 0, 0, 0, 0],
     [1.1876, - 0.072518, 0, 0, 0, 0],
     [1.2341, - 0.10569, 0.022589, 0, 0, 0],
     [1.2516, - 0.12085, 0.032236, - 0.011459, 0, 0],
     [1.2596, - 0.12829, 0.038533, - 0.014681, 0.007258, 0],
     [1.264, - 0.13239, 0.042217, - 0.017803, 0.0081959, - 0.0051848]]"

text \<open>
  The five \<open>if (self.max_relative_error == k): hc = ...\<close> statements. For any other
  value \<open>hc\<close> is never bound, and its first use raises \<open>UnboundLocalError\<close>.
\<close>

definition hc :: "int \<Rightarrow> real list list option" where
  "hc max_relative_error =
     (if max_relative_error = 0 then Some hc_taylor
      else if max_relative_error = 1 then Some hc_holberg_01
      else if max_relative_error = 2 then Some hc_holberg_05
      else if max_relative_error = 3 then Some hc_holberg_10
      else if max_relative_error = 4 then Some hc_holberg_30
      else None)"

definition endings :: "real list" where
  "endings = [10, 20, 25, 50, 80]"

text \<open>
  The second half of \<open>_check_stability\<close>, from the comment \<open>Round the dt toward min\<close> to
  the \<open>return\<close>, as a function of \<open>dt\<close>:

  \<^verbatim>\<open>_dt = 0.99 * dt\<close>
  \<^verbatim>\<open>_dt10 = 10 ** (np.log10(_dt) // 1 - 1)\<close>
  \<^verbatim>\<open>last2digits = (_dt / _dt10)\<close>
  \<^verbatim>\<open>mask = [True if last2digits >= e else False for e in endings]\<close>
  \<^verbatim>\<open>last2digits = np.max([e for i, e in enumerate(endings) if mask[i]])\<close>
  \<^verbatim>\<open>dt_round = last2digits * _dt10\<close>

  \<open>dt_safe\<close> is \<open>_dt\<close> and \<open>dt10\<close> is \<open>_dt10\<close>. The literal \<open>0.99\<close> is the double nearest to
  99/100. \<open>np.log10\<close> and the power \<open>10 ** k\<close> are functions of the C library: they are
  taken to return the correctly rounded value of the logarithm and of the power.
  \<open>// 1\<close> is the floor, and the floor minus one is exact.

  Where \<open>_dt\<close> is zero or negative, \<open>np.log10(_dt)\<close> is \<open>-inf\<close> or \<open>nan\<close>, and \<open>last2digits\<close>
  is \<open>nan\<close>. Every comparison \<open>last2digits >= e\<close> is then false, the selection is empty
  and \<open>np.max\<close> raises \<open>ValueError\<close>: that is the branch \<open>dt_safe \<le> 0\<close> below. \<open>mask\<close> and
  the selection are written as in the source.
\<close>

definition round_dt :: "real \<Rightarrow> py_error + real" where
  "round_dt dt =
     fl (rnd64 (99 / 100) * dt) (\<lambda>dt_safe.
       if dt_safe \<le> 0 then Inl ValueError
       else
         fl (log 10 dt_safe) (\<lambda>lg.
         fl (10 powr (of_int \<lfloor>lg\<rfloor> - 1)) (\<lambda>dt10.
         fl (dt_safe / dt10) (\<lambda>last2digits.
           (let mask = map (\<lambda>e. last2digits \<ge> e) endings;
                chosen = map snd (filter (\<lambda>(i, e). mask ! i) (enumerate 0 endings))
            in (case np_max chosen of
                  Inl e \<Rightarrow> Inl e
                | Inr last2digits' \<Rightarrow> fl (last2digits' * dt10) Inr))))))"

text \<open>
  \<open>_check_stability(maxvp, maxvs)\<close>, reading \<open>self.max_relative_error\<close>,
  \<open>self.FD_ORDER\<close> and \<open>self.DH\<close>; the result is the returned \<open>dt_round\<close>.

  An entry of the table is the double nearest to the number written in the source
  (a decimal literal, or the quotient of two integers that are doubles), \<open>gamma\<close> is
  \<open>np.sum(np.abs(hc[fdcoeff, :]))\<close>, and \<open>np.sqrt(2.) * gamma * maxvel\<close> is evaluated from
  left to right. A zero \<open>maxvel\<close> makes the divisor zero: numpy divides to \<open>inf\<close> or \<open>nan\<close>
  and the run ends in the \<open>ValueError\<close> of the empty selection, as it does in the model,
  where \<open>x / 0\<close> is \<open>0\<close>.
\<close>

definition check_stability :: "int \<Rightarrow> int \<Rightarrow> real \<Rightarrow> real \<Rightarrow> real \<Rightarrow> py_error + real" where
  "check_stability max_relative_error fd_order dh maxvp maxvs =
     (case hc max_relative_error of
        None \<Rightarrow> Inl UnboundLocalError
      | Some coeffs \<Rightarrow>
          (case py_item coeffs (half_order fd_order - 1) of
             Inl e \<Rightarrow> Inl e
           | Inr row \<Rightarrow>
               (let maxvel = (if maxvp < maxvs then maxvs else maxvp);
                    gamma = np_sum (map (\<lambda>c. \<bar>rnd64 c\<bar>) row)
                in fl (rnd64 (sqrt 2) * gamma) (\<lambda>a.
                   fl (a * maxvel) (\<lambda>den.
                   fl (dh / den) (\<lambda>dt. round_dt dt))))))"

text \<open>
  The rounding rule in the words of the specification, over the real numbers, for
  comparison with the code: \<open>gamma\<close> is the sum of the absolute values of the table row
  selected by the accuracy class and the operator half-length minus one,
  \<open>v_max = max(max_vp, max_vs)\<close>,
  \<open>dt_raw = grid_spacing / (sqrt(2) * gamma * v_max)\<close>, \<open>dt_safe = 0.99 * dt_raw\<close>,
  \<open>exp10 = floor(log10(dt_safe)) - 1\<close>, \<open>scale = 10^exp10\<close>,
  \<open>mantissa = dt_safe / scale\<close>, the candidate is the largest of 10, 20, 25, 50, 80 that
  is at most the mantissa, and \<open>dt = candidate * scale\<close>.
\<close>

definition cfl_dt_raw :: "int \<Rightarrow> int \<Rightarrow> real \<Rightarrow> real \<Rightarrow> real \<Rightarrow> real" where
  "cfl_dt_raw accuracy_class operator_half_length grid_spacing max_vp max_vs =
     grid_spacing /
       (sqrt 2 * (\<Sum>c \<leftarrow> the (hc accuracy_class) ! nat (operator_half_length - 1). \<bar>c\<bar>)
          * max max_vp max_vs)"

definition max_stable_dt :: "int \<Rightarrow> int \<Rightarrow> real \<Rightarrow> real \<Rightarrow> real \<Rightarrow> real" where
  "max_stable_dt accuracy_class operator_half_length grid_spacing max_vp max_vs =
     (let dt_raw = cfl_dt_raw accuracy_class operator_half_length grid_spacing max_vp max_vs;
          dt_safe = 0.99 * dt_raw;
          exp10 = \<lfloor>log 10 dt_safe\<rfloor> - 1;
          scale = 10 powr (of_int exp10);
          mantissa = dt_safe / scale;
          candidate = Max (Set.filter (\<lambda>c. c \<le> mantissa) {10, 20, 25, 50, 80})
      in candidate * scale)"

text \<open>
  Auxiliary notions for the proofs: the candidate that the selection picks for a
  mantissa of at least 10, and an exact result that is in range and rounds to \<open>r\<close>.
\<close>

definition nice :: "real \<Rightarrow> real" where
  "nice m = (if 80 \<le> m then 80 else if 50 \<le> m then 50 else if 25 \<le> m then 25
             else if 20 \<le> m then 20 else 10)"

definition rounds_to :: "real \<Rightarrow> real \<Rightarrow> bool" where
  "rounds_to x r \<longleftrightarrow> in_range64 x \<and> rnd64 x = r"

subsection \<open>Dispersion check\<close>

text \<open>
  Console output. \<open>_print_1\<close> prints when \<open>self.verbose == 1\<close>. A printed line is kept
  as its text, or as the text before a number, the number and the text after it; a
  number that numpy prints as \<open>inf\<close> or \<open>nan\<close> is \<open>NotFinite\<close>.
\<close>

datatype np_float = Finite real | NotFinite

datatype console = Text string | Value string np_float string

definition print_1 :: "int \<Rightarrow> console list \<Rightarrow> console list" where
  "print_1 verbose out = (if verbose = 1 then out else [])"

text \<open>What a call returns to its caller: \<open>None\<close> when the method body ends without a
  \<open>return\<close> statement.\<close>

datatype py_value = PyNone | PyFloat real

definition gridpoints_per_wavelength :: "real list list" where
  "gridpoints_per_wavelength =
    [[23.0, 8.0, 6.0, 5.0, 5.0, 4.0],
     [49.7, 8.32, 4.77, 3.69, 3.19, 2.91],
     [22.2, 5.65, 3.74, 3.11, 2.8, 2.62],
     [15.8, 4.8, 3.39, 2.9, 2.65, 2.51],
     [9.16, 3.47, 2.91, 2.61, 2.45, 2.36]]"

text \<open>
  \<open>_check_max_frequency\<close>, reading \<open>self.verbose\<close>, \<open>self.model\<close>,
  \<open>self.max_relative_error\<close>, \<open>self.FD_ORDER\<close> and \<open>self.DH\<close>. The method computes
  \<open>fmax\<close>, prints it and ends: it has no \<open>return\<close> statement. The result is the console
  output of a call that completes, and the value the call returns. For \<open>DH = 0\<close> the
  numpy division gives \<open>inf\<close>, with a warning and no exception.
\<close>

definition check_max_frequency ::
    "int \<Rightarrow> Model \<Rightarrow> int \<Rightarrow> int \<Rightarrow> real \<Rightarrow> py_error + (console list \<times> py_value)" where
  "check_max_frequency verbose m max_relative_error fd_order dh =
     (case np_min (nonzero (vs m)) of
        Inl e \<Rightarrow> Inl e
      | Inr minvs \<Rightarrow>
     (case np_min (nonzero (vp m)) of
        Inl e \<Rightarrow> Inl e
      | Inr minvp \<Rightarrow>
     (case py_item gridpoints_per_wavelength max_relative_error of
        Inl e \<Rightarrow> Inl e
      | Inr table_row \<Rightarrow>
     (case py_item table_row (half_order fd_order - 1) of
        Inl e \<Rightarrow> Inl e
      | Inr num_grid_points \<Rightarrow>
         (let minvel = (if minvp < minvs then minvp else minvs);
              fmax = (if num_grid_points * dh = 0 then NotFinite
                      else Finite (minvel / (num_grid_points * dh)))
          in Inr (print_1 verbose
                    [Text ''Check max source frequency:'',
                     Value (TAB # ''min Vs: '') (Finite minvs) '' m/s'',
                     Value (TAB # ''min Vp: '') (Finite minvp) '' m/s'',
                     Value (TAB # ''Number of gridpoints per minimum wavelength = '')
                       (Finite num_grid_points) '''',
                     Value (TAB # ''Maximum source wavelet frequency = '') fmax '' Hz''],
                  PyNone))))))"

subsection \<open>Strings\<close>

text \<open>\<open>str.isspace\<close> on the code points below 256, which is what \<open>str.strip()\<close> removes
  at both ends.\<close>

definition isspace :: "char \<Rightarrow> bool" where
  "isspace c = (c \<in> set [CHR 0x09, CHR 0x0A, CHR 0x0B, CHR 0x0C, CHR 0x0D, CHR 0x1C, CHR 0x1D,
                         CHR 0x1E, CHR 0x1F, CHR 0x20, CHR 0x85, CHR 0xA0])"

definition strip :: "string \<Rightarrow> string" where
  "strip s = rev (dropWhile isspace (rev (dropWhile isspace s)))"

text \<open>\<open>s.split(sep)\<close> for a separator of one character: never empty, the empty string
  gives one empty piece.\<close>

fun split_on :: "char \<Rightarrow> string \<Rightarrow> string list" where
  "split_on sep [] = [[]]"
| "split_on sep (c # cs) =
     (if c = sep then [] # split_on sep cs
      else (c # hd (split_on sep cs)) # tl (split_on sep cs))"

text \<open>\<open>sep.join(pieces)\<close>.\<close>

fun join :: "string \<Rightarrow> string list \<Rightarrow> string" where
  "join sep [] = []"
| "join sep [p] = p"
| "join sep (p # q # ps) = p @ sep @ join sep (q # ps)"

text \<open>\<open>fp.readlines()\<close> on the text of the file: each line keeps its newline, the last
  line may lack one.\<close>

fun readlines :: "string \<Rightarrow> string list" where
  "readlines [] = []"
| "readlines (c # cs) =
     (if c = NL then [NL] # readlines cs
      else (case readlines cs of [] \<Rightarrow> [[c]] | l # ls \<Rightarrow> (c # l) # ls))"

text \<open>
  \<open>re.findall(r'\((.*?)\)', line)\<close>: scanning from the left, an opening parenthesis
  matches with the shortest run of characters other than newline up to the next closing
  parenthesis; the run is the group, and the scan goes on after the closing parenthesis.
  An opening parenthesis with no such run is skipped.
\<close>

fun until_close :: "string \<Rightarrow> (string \<times> string) option" where
  "until_close [] = None"
| "until_close (c # cs) =
     (if c = CHR '')'' then Some ([], cs)
      else if c = NL then None
      else (case until_close cs of None \<Rightarrow> None | Some (g, r) \<Rightarrow> Some (c # g, r)))"

lemma until_close_shorter: "until_close cs = Some (g, r) \<Longrightarrow> length r < length cs"
  by (induction cs arbitrary: g) (auto split: if_splits option.splits)

function findall_parens :: "string \<Rightarrow> string list" where
  "findall_parens [] = []"
| "findall_parens (c # cs) =
     (if c = CHR ''('' then
        (case until_close cs of
           None \<Rightarrow> findall_parens cs
         | Some (g, r) \<Rightarrow> g # findall_parens r)
      else findall_parens cs)"
  by pat_completeness auto
termination
  by (relation "measure length") (auto dest: until_close_shorter)

subsection \<open>Parameter file: parsing\<close>

text \<open>
  \<open>ast.literal_eval\<close> and \<open>str\<close> belong to the Python library, not to this program:
  they are parameters of the model. \<open>literal_eval\<close> either evaluates the text to a
  value, or raises \<open>SyntaxError\<close> or \<open>ValueError\<close>, which the parser catches
  (\<open>Malformed\<close>), or raises something else, which the parser lets through. A parsed
  value is that literal, or the text itself.
\<close>

datatype 'v literal = Evaluated 'v | Malformed | Raised py_error

datatype 'v py_attr = Str string | Lit 'v

text \<open>
  The part of the object that parser and writer share: \<open>self._inp_file\<close>,
  \<open>self._map_args\<close> (a dict, in insertion order) and the attributes set from the file.
\<close>

record 'v registry =
  inp_file :: "string list"
  map_args :: "(string \<times> nat) list"
  attrs :: "string \<rightharpoonup> 'v py_attr"

text \<open>What the body of the loop of \<open>_parse_inp_file\<close> makes of one stripped line.\<close>

datatype line_kind = Comment | Sentinel | Assignment string string

definition classify :: "string \<Rightarrow> py_error + line_kind" where
  "classify line =
     (case line of
        [] \<Rightarrow> Inl IndexError
      | c # _ \<Rightarrow>
          if c = CHR ''#'' then Inr Comment
          else if CHR ''('' \<in> set line then
            (case findall_parens line of
               [] \<Rightarrow> Inl IndexError
             | g # gs \<Rightarrow>
                 Inr (Assignment (last (g # gs)) (strip (last (split_on (CHR ''='') line)))))
          else if CHR ''='' \<in> set line then
            Inr (Assignment (strip (hd (split_on (CHR ''='') line)))
                            (strip (last (split_on (CHR ''='') line))))
          else Inr Sentinel)"

text \<open>
  The loop over the lines, with \<open>count\<close>, \<open>para\<close> and \<open>self._map_args\<close>. An empty
  stripped line raises at \<open>line[0]\<close>, as does a line with an opening parenthesis and no
  parenthesised group at \<open>[-1]\<close>. The first line that is no comment and has neither a
  parenthesis nor an equals sign ends the loop.
\<close>

fun parse_lines ::
    "(string \<Rightarrow> 'v literal) \<Rightarrow> nat \<Rightarrow> string list \<Rightarrow>
     (string \<rightharpoonup> 'v py_attr) \<times> (string \<times> nat) list \<Rightarrow>
     py_error + ((string \<rightharpoonup> 'v py_attr) \<times> (string \<times> nat) list)" where
  "parse_lines literal_eval count [] acc = Inr acc"
| "parse_lines literal_eval count (raw # rest) (para, margs) =
     (case classify (strip raw) of
        Inl e \<Rightarrow> Inl e
      | Inr Comment \<Rightarrow> parse_lines literal_eval (count + 1) rest (para, margs)
      | Inr Sentinel \<Rightarrow> Inr (para, margs)
      | Inr (Assignment arg_name arg_val) \<Rightarrow>
          (case literal_eval arg_val of
             Raised e \<Rightarrow> Inl e
           | Evaluated v \<Rightarrow>
               parse_lines literal_eval (count + 1) rest
                 (para(arg_name \<mapsto> Lit v), AList.update arg_name (count + 1) margs)
           | Malformed \<Rightarrow>
               parse_lines literal_eval (count + 1) rest
                 (para(arg_name \<mapsto> Str arg_val), AList.update arg_name (count + 1) margs)))"

text \<open>
  \<open>_dict_to_args(para)\<close> sets every parsed name as an attribute of the object. A name
  that begins with an underscore can be one of the object's own attributes
  (\<open>_inp_file\<close>, \<open>_map_args\<close>, \<open>_print_2\<close>, the read-only properties, the special
  attributes), and setting it replaces what parser and writer work with, or raises. The
  model does not follow the object there: it stops with \<open>Unmodelled\<close>.
\<close>

definition private_name :: "string \<Rightarrow> bool" where
  "private_name k = (case k of [] \<Rightarrow> False | c # _ \<Rightarrow> c = CHR ''_'')"

definition parse_inp_file :: "(string \<Rightarrow> 'v literal) \<Rightarrow> string \<Rightarrow> py_error + 'v registry" where
  "parse_inp_file literal_eval text =
     (case parse_lines literal_eval 0 (readlines text) (Map.empty, []) of
        Inl e \<Rightarrow> Inl e
      | Inr (para, margs) \<Rightarrow>
          if list_ex (\<lambda>(k, n). private_name k) margs then Inl Unmodelled
          else Inr \<lparr>inp_file = readlines text, map_args = margs, attrs = para\<rparr>)"

subsection \<open>Parameter file: writing\<close>

text \<open>\<open>str(value)\<close> of an attribute, and \<open>.replace('(', '').replace(')', '')\<close>.\<close>

definition py_str :: "('v \<Rightarrow> string) \<Rightarrow> 'v py_attr \<Rightarrow> string" where
  "py_str str_lit a = (case a of Str s \<Rightarrow> s | Lit v \<Rightarrow> str_lit v)"

definition strip_parens :: "string \<Rightarrow> string" where
  "strip_parens s = filter (\<lambda>c. c \<noteq> CHR '')'') (filter (\<lambda>c. c \<noteq> CHR ''('') s)"

text \<open>\<open>'='.join(line.split('=')[:-1])\<close>: the line up to its last equals sign, without
  that sign; empty for a line that has none.\<close>

definition before_last_eq :: "string \<Rightarrow> string" where
  "before_last_eq line = join ''='' (butlast (split_on (CHR ''='') line))"

definition rewrite_line :: "string \<Rightarrow> string \<Rightarrow> string" where
  "rewrite_line line val = before_last_eq line @ ''= '' @ strip_parens val @ [NL]"

text \<open>
  The loop of \<open>_write_inp_file\<close> over \<open>self._map_args.items()\<close>. \<open>c\<close> is
  \<open>self._inp_file\<close> itself, so the loop rewrites the stored lines. \<open>c[line_id - 1]\<close>
  with \<open>line_id = 0\<close> is \<open>c[-1]\<close>, the last line.
\<close>

fun write_lines ::
    "('v \<Rightarrow> string) \<Rightarrow> (string \<rightharpoonup> 'v py_attr) \<Rightarrow> (string \<times> nat) list \<Rightarrow> string list \<Rightarrow>
     py_error + string list" where
  "write_lines str_lit getattr [] c = Inr c"
| "write_lines str_lit getattr ((attr, line_id) # rest) c =
     (case py_item c (int line_id - 1) of
        Inl e \<Rightarrow> Inl e
      | Inr line \<Rightarrow>
          (case getattr attr of
             None \<Rightarrow> Inl AttributeError
           | Some v \<Rightarrow>
               write_lines str_lit getattr rest
                 (c[(if line_id = 0 then length c - 1 else line_id - 1)
                      := rewrite_line line (py_str str_lit v)])))"

text \<open>\<open>_write_inp_file\<close>: the object with the rewritten lines, and the text
  \<open>''.join(c)\<close> that is written to the file or printed.\<close>

definition write_inp_file :: "('v \<Rightarrow> string) \<Rightarrow> 'v registry \<Rightarrow> py_error + ('v registry \<times> string)" where
  "write_inp_file str_lit r =
     (case write_lines str_lit (attrs r) (map_args r) (inp_file r) of
        Inl e \<Rightarrow> Inl e
      | Inr c \<Rightarrow> Inr (r\<lparr>inp_file := c\<rparr>, concat c))"

text \<open>An assignment \<open>denise.NAME = value\<close> by the user.\<close>

definition set_attr :: "'v registry \<Rightarrow> string \<Rightarrow> 'v py_attr \<Rightarrow> 'v registry" where
  "set_attr r k v = r\<lparr>attrs := (attrs r)(k \<mapsto> v)\<rparr>"

text \<open>Serializing what the parser built, with no assignment in between, and with one.\<close>

definition serialize_parsed ::
    "(string \<Rightarrow> 'v literal) \<Rightarrow> ('v \<Rightarrow> string) \<Rightarrow> string \<Rightarrow> py_error + string" where
  "serialize_parsed literal_eval str_lit text =
     (case parse_inp_file literal_eval text of
        Inl e \<Rightarrow> Inl e
      | Inr r \<Rightarrow> map_sum id snd (write_inp_file str_lit r))"

definition serialize_changed ::
    "(string \<Rightarrow> 'v literal) \<Rightarrow> ('v \<Rightarrow> string) \<Rightarrow> string \<Rightarrow> string \<Rightarrow> 'v py_attr \<Rightarrow> py_error + string" where
  "serialize_changed literal_eval str_lit text k v =
     (case parse_inp_file literal_eval text of
        Inl e \<Rightarrow> Inl e
      | Inr r \<Rightarrow> map_sum id snd (write_inp_file str_lit (set_attr r k v)))"

text \<open>
  A fragment of \<open>ast.literal_eval\<close> for concrete runs: a non-empty text of lower case
  letters is a bare name or a keyword, never a literal, so \<open>literal_eval\<close> raises
  \<open>ValueError\<close> or \<open>SyntaxError\<close> and the parser keeps the text as a string. Any other
  text is outside the fragment.
\<close>

definition literal_eval_names :: "string \<Rightarrow> unit literal" where
  "literal_eval_names s =
     (if s \<noteq> [] \<and> list_all (\<lambda>c. c \<in> set ''abcdefghijklmnopqrstuvwxyz'') s then Malformed
      else Raised Unmodelled)"

text \<open>
  Two predicates for the proofs. \<open>tracked_ok\<close> is the invariant of the parser's loop:
  no name and no line number is recorded twice, every recorded line number is one of the
  lines read so far, and every recorded name has a value. \<open>canonical\<close> says that every
  recorded line already is what the writer makes of it.
\<close>

definition tracked_ok :: "nat \<Rightarrow> (string \<rightharpoonup> 'v py_attr) \<Rightarrow> (string \<times> nat) list \<Rightarrow> bool" where
  "tracked_ok count para margs =
     (distinct (map fst margs) \<and> distinct (map snd margs)
      \<and> (\<forall>(k, n) \<in> set margs. 1 \<le> n \<and> n \<le> count \<and> para k \<noteq> None))"

definition canonical :: "('v \<Rightarrow> string) \<Rightarrow> 'v registry \<Rightarrow> bool" where
  "canonical str_lit r =
     list_all (\<lambda>(k, n). case attrs r k of
                  None \<Rightarrow> False
                | Some v \<Rightarrow> inp_file r ! (n - 1) = rewrite_line (inp_file r ! (n - 1)) (py_str str_lit v))
       (map_args r)"

subsection \<open>FWI stages and the workflow file\<close>

text \<open>
  An FWI stage is the dict that \<open>add_fwi_stage\<close> builds: one value for each of its 28
  keys (\<open>TWIN-\<close> and \<open>TWIN+\<close> are \<open>TWIN_minus\<close> and \<open>TWIN_plus\<close> here). The values are
  Python numbers of any kind; their type \<open>'v\<close> and the function \<open>str\<close> on them are
  parameters of the model.
\<close>

record 'v stage =
  PRO :: 'v
  TIME_FILT :: 'v
  FC_LOW :: 'v
  FC_HIGH :: 'v
  ORDER :: 'v
  TIME_WIN :: 'v
  GAMMA :: 'v
  TWIN_minus :: 'v
  TWIN_plus :: 'v
  INV_VP_ITER :: 'v
  INV_VS_ITER :: 'v
  INV_RHO_ITER :: 'v
  INV_QS_ITER :: 'v
  SPATFILTER :: 'v
  WD_DAMP :: 'v
  WD_DAMP1 :: 'v
  EPRECOND :: 'v
  LNORM :: 'v
  STF :: 'v
  OFFSETC_STF :: 'v
  EPS_STF :: 'v
  NORMALIZE :: 'v
  OFFSET_MUTE :: 'v
  OFFSETC :: 'v
  SCALERHO :: 'v
  SCALEQS :: 'v
  ENV :: 'v
  N_ORDER :: 'v

text \<open>The keyword arguments of \<open>add_fwi_stage\<close>, each given explicitly (the defaults of
  the source are numbers and are not part of the model).\<close>

record 'v stage_args =
  pro :: 'v
  time_filt :: 'v
  fc_low :: 'v
  fc_high :: 'v
  order_arg :: 'v
  time_win :: 'v
  gamma_arg :: 'v
  twin_minus :: 'v
  twin_plus :: 'v
  inv_vp_iter :: 'v
  inv_vs_iter :: 'v
  inv_rho_iter :: 'v
  inv_qs_iter :: 'v
  spatfilter :: 'v
  wd_damp :: 'v
  wd_damp1 :: 'v
  e_precond :: 'v
  lnorm :: 'v
  stf :: 'v
  offsetc_stf :: 'v
  eps_stf :: 'v
  normalize :: 'v
  offset_mute :: 'v
  offsetc :: 'v
  scale_rho :: 'v
  scale_qs :: 'v
  env :: 'v
  n_order :: 'v

text \<open>The dict \<open>para\<close> of \<open>add_fwi_stage\<close>; the method appends it to
  \<open>self.fwi_stages\<close>.\<close>

definition stage_of_args :: "'v stage_args \<Rightarrow> 'v stage" where
  "stage_of_args a =
     \<lparr>PRO = pro a, TIME_FILT = time_filt a, FC_LOW = fc_low a, FC_HIGH = fc_high a,
      ORDER = order_arg a, TIME_WIN = time_win a, GAMMA = gamma_arg a,
      TWIN_minus = twin_minus a, TWIN_plus = twin_plus a,
      INV_VP_ITER = inv_vp_iter a, INV_VS_ITER = inv_vs_iter a,
      INV_RHO_ITER = inv_rho_iter a, INV_QS_ITER = inv_qs_iter a,
      SPATFILTER = spatfilter a, WD_DAMP = wd_damp a, WD_DAMP1 = wd_damp1 a,
      EPRECOND = e_precond a, LNORM = lnorm a, STF = stf a,
      OFFSETC_STF = offsetc_stf a, EPS_STF = eps_stf a, NORMALIZE = normalize a,
      OFFSET_MUTE = offset_mute a, OFFSETC = offsetc a, SCALERHO = scale_rho a,
      SCALEQS = scale_qs a, ENV = env a, N_ORDER = n_order a\<rparr>"


text \<open>The header that \<open>_write_denise_workflow_header\<close> writes: the string literal of
  the source, piece by piece.\<close>

definition workflow_header :: string where
  "workflow_header =
     ''PRO '' @ [TAB] @ '' TIME_FILT '' @ [TAB] @ '' FC_low '' @ [TAB] @ '' FC_high '' @ [TAB]
     @ '' ORDER '' @ [TAB] @ '' TIME_WIN '' @ [TAB]
     @ '' GAMMA '' @ [TAB] @ '' TWIN- '' @ [TAB] @ '' TWIN+ '' @ [TAB] @ '' INV_VP_ITER '' @ [TAB]
     @ '' INV_VS_ITER '' @ [TAB]
     @ '' INV_RHO_ITER '' @ [TAB] @ '' INV_QS_ITER '' @ [TAB] @ '' SPATFILTER '' @ [TAB]
     @ '' WD_DAMP '' @ [TAB] @ '' WD_DAMP1''
     @ '' '' @ [TAB] @ '' EPRECOND '' @ [TAB] @ '' LNORM '' @ [TAB] @ '' STF_INV '' @ [TAB]
     @ '' OFFSETC_STF '' @ [TAB] @ '' EPS_STF '' @ [TAB] @ '' NORMALIZE''
     @ '' '' @ [TAB] @ '' OFFSET_MUTE '' @ [TAB] @ '' OFFSETC '' @ [TAB] @ '' SCALERHO '' @ [TAB]
     @ '' SCALEQS '' @ [TAB] @ '' ENV '' @ [TAB] @ '' GAMMA_GRAV '' @ [TAB] @ '' N_ORDER '' @ [NL]"

text \<open>The line that \<open>_write_denise_workflow(stage)\<close> appends: the concatenation of the
  source, with the literal \<open>"0"\<close> in the 22nd and the 28th place.\<close>

definition workflow_row :: "('v \<Rightarrow> string) \<Rightarrow> 'v stage \<Rightarrow> string" where
  "workflow_row str s =
     str (PRO s) @ [TAB] @ str (TIME_FILT s) @ [TAB] @ str (FC_LOW s) @ [TAB]
     @ str (FC_HIGH s) @ [TAB] @ str (ORDER s) @ [TAB] @ str (TIME_WIN s) @ [TAB]
     @ str (GAMMA s) @ [TAB] @ str (TWIN_minus s) @ [TAB] @ str (TWIN_plus s) @ [TAB]
     @ str (INV_VP_ITER s) @ [TAB] @ str (INV_VS_ITER s) @ [TAB] @ str (INV_RHO_ITER s) @ [TAB]
     @ str (INV_QS_ITER s) @ [TAB] @ str (SPATFILTER s) @ [TAB] @ str (WD_DAMP s) @ [TAB]
     @ str (WD_DAMP1 s) @ [TAB] @ str (EPRECOND s) @ [TAB] @ str (LNORM s) @ [TAB]
     @ str (STF s) @ [TAB] @ str (OFFSETC_STF s) @ [TAB] @ str (EPS_STF s) @ [TAB] @ ''0'' @ [TAB]
     @ str (OFFSET_MUTE s) @ [TAB] @ str (OFFSETC s) @ [TAB] @ str (SCALERHO s) @ [TAB]
     @ str (SCALEQS s) @ [TAB] @ str (ENV s) @ [TAB] @ ''0'' @ [TAB] @ str (N_ORDER s) @ [NL]"



subsection \<open>Effects of a run\<close>

text \<open>
  What a run does to the file system, to the console and to the operating system, in
  order. \<open>Write\<close> and \<open>Append\<close> are text files opened with mode \<open>'w'\<close> and \<open>'a'\<close>, with the
  text written; \<open>WriteData\<close> is a file whose contents the model does not follow (the
  binary model files, the source and receiver files, the \<open>.npy\<close> files and the
  parameter file written by \<open>_write_inp_file\<close>). Opening and writing a file is taken
  to succeed: the save folder exists, as it does after an earlier run. Of the console
  output the trace keeps
  what \<open>print\<close> writes whatever \<open>verbose\<close> is; \<open>PrintDone\<close> is the closing message with
  the elapsed time.
\<close>

datatype event =
    Makedirs string
  | Write string string
  | Append string string
  | WriteData string
  | Print string
  | PrintDone
  | Launch string

fun written_path :: "event \<Rightarrow> string option" where
  "written_path (Write p t) = Some p"
| "written_path (Append p t) = Some p"
| "written_path (WriteData p) = Some p"
| "written_path e = None"

text \<open>The paths of the files written by a run, in order, and whether it starts the
  external program.\<close>

definition written_paths :: "event list \<Rightarrow> string list" where
  "written_paths evs = List.map_filter written_path evs"

fun is_launch :: "event \<Rightarrow> bool" where
  "is_launch (Launch c) = True"
| "is_launch e = False"

definition launches :: "event list \<Rightarrow> bool" where
  "launches evs = list_ex is_launch evs"



definition write_denise_workflow_header :: "string \<Rightarrow> event" where
  "write_denise_workflow_header filename_workflow = Write filename_workflow workflow_header"

definition write_denise_workflow :: "('v \<Rightarrow> string) \<Rightarrow> string \<Rightarrow> 'v stage \<Rightarrow> event" where
  "write_denise_workflow str filename_workflow stage =
     Append filename_workflow (workflow_row str stage)"

subsection \<open>The object and its paths\<close>

text \<open>Sources and receivers, as far as a run looks at them: their coordinates.\<close>

record Sources =
  src_x :: "real list"
  src_y :: "real list"

record Receivers =
  rec_x :: "real list"
  rec_y :: "real list"

text \<open>
  The attributes of a \<open>Denise\<close> object that the run methods read or assign, with the
  types the methods use them at. \<open>DT\<close> and \<open>NT\<close> are \<open>None\<close> after construction.
\<close>

record 'v denise =
  verbose :: int
  root_denise :: string
  save_folder :: string
  SEIS_FILE_NAME :: string
  model :: Model
  fwi_stages :: "'v stage list"
  NX :: int
  NY :: int
  DH :: real
  NREC :: nat
  NSRC :: nat
  NPROCX :: int
  NPROCY :: int
  MODE :: int
  DT :: "real option"
  NT :: "int option"
  TIME :: real
  FD_ORDER :: int
  max_relative_error :: int
  N_STREAMER :: int
  READREC :: int
  VPUPPERLIM :: real
  VSUPPERLIM :: real
  filename :: string
  filename_workflow :: string
  MFILE :: string
  REC_FILE :: string
  SOURCE_FILE :: string

text \<open>\<open>os.path.join(a, b)\<close> on a POSIX system.\<close>

definition path_join :: "string \<Rightarrow> string \<Rightarrow> string" where
  "path_join a b =
     (case b of
        c # _ \<Rightarrow> if c = CHR ''/'' then b
                 else if a = [] then b
                 else if last a = CHR ''/'' then a @ b else a @ ''/'' @ b
      | [] \<Rightarrow> if a = [] then b
              else if last a = CHR ''/'' then a @ b else a @ ''/'' @ b)"

text \<open>\<open>_create_folders(save_path)\<close>.\<close>

definition create_folders :: "string \<Rightarrow> event list" where
  "create_folders save_path =
     map (\<lambda>f. Makedirs (path_join save_path (f @ ''/'')))
       [''start'', ''su'', ''receiver'', ''source'', ''snap'', ''log'', ''wavelet'',
        ''jacobian'', ''model'', ''gravity'', ''picked_times'', ''trace_kill'']"

text \<open>\<open>set_paths\<close>, for the paths that a run uses; the directories are created by
  \<open>create_folders\<close> when \<open>makedirs\<close> is set.\<close>

definition set_paths :: "'v denise \<Rightarrow> 'v denise" where
  "set_paths d =
     d\<lparr>filename := path_join (save_folder d) (SEIS_FILE_NAME d @ ''.inp''),
       filename_workflow := path_join (save_folder d) (SEIS_FILE_NAME d @ ''_fwi.inp''),
       MFILE := path_join (save_folder d) ''start/model'',
       REC_FILE := path_join (save_folder d) ''receiver/receivers'',
       SOURCE_FILE := path_join (save_folder d) ''source/sources.dat''\<rparr>"

text \<open>\<open>set_model\<close> for a \<open>Model\<close>: \<open>self.NY, self.NX = model.vp.shape[:2]\<close>.\<close>

definition set_model :: "'v denise \<Rightarrow> Model \<Rightarrow> 'v denise" where
  "set_model d m =
     d\<lparr>NY := int (n_rows (vp m)), NX := int (n_cols (vp m)), DH := dx m, model := m\<rparr>"

subsection \<open>Numbers as text\<close>

text \<open>\<open>str\<close> of a Python \<open>int\<close>, for the f-strings of the run.\<close>

definition digit_char :: "nat \<Rightarrow> char" where
  "digit_char n = ''0123456789'' ! n"

function str_nat :: "nat \<Rightarrow> string" where
  "str_nat n = (if n < 10 then [digit_char n] else str_nat (n div 10) @ [digit_char (n mod 10)])"
  by pat_completeness auto
termination
  by (relation "measure id") auto

declare str_nat.simps [simp del]

definition str_int :: "int \<Rightarrow> string" where
  "str_int i = (if i < 0 then CHR ''-'' # str_nat (nat (- i)) else str_nat (nat i))"

text \<open>\<open>int(x)\<close> of a float: truncation toward zero.\<close>

definition py_int :: "real \<Rightarrow> int" where
  "py_int x = (if 0 \<le> x then \<lfloor>x\<rfloor> else \<lceil>x\<rceil>)"

subsection \<open>The run\<close>

text \<open>
  The time step of \<open>_engine\<close>: in forward mode from the largest non-zero velocities of
  the model, with \<open>NT = int(TIME / DT)\<close>, the truncated quotient of two doubles;
  otherwise, when no time step is set yet, from the upper limits \<open>VPUPPERLIM\<close> and
  \<open>VSUPPERLIM\<close>.
\<close>

definition compute_dt :: "'v denise \<Rightarrow> py_error + 'v denise" where
  "compute_dt d =
     (if MODE d < 1 then
        (case np_max (nonzero (vp (model d))) of
           Inl e \<Rightarrow> Inl e
         | Inr maxvp \<Rightarrow>
        (case np_max (nonzero (vs (model d))) of
           Inl e \<Rightarrow> Inl e
         | Inr maxvs \<Rightarrow>
        (case check_stability (max_relative_error d) (FD_ORDER d) (DH d) maxvp maxvs of
           Inl e \<Rightarrow> Inl e
         | Inr dt \<Rightarrow>
             fl (TIME d / dt) (\<lambda>q. Inr (d\<lparr>DT := Some dt, NT := Some (py_int q)\<rparr>)))))
      else if DT d = None then
        (case check_stability (max_relative_error d) (FD_ORDER d) (DH d)
                (VPUPPERLIM d) (VSUPPERLIM d) of
           Inl e \<Rightarrow> Inl e
         | Inr dt \<Rightarrow> Inr (d\<lparr>DT := Some dt\<rparr>))
      else Inr d)"

text \<open>
  The first part of \<open>_engine\<close> after \<open>set_paths\<close>: \<open>set_model\<close>, the numbers of
  receivers and sources, the dispersion check, the domain decomposition check and the
  time step. It writes no file. (The Poisson ratio and the velocities printed between
  the checks and the time step raise nothing.)
\<close>

definition engine_checks :: "'v denise \<Rightarrow> Model \<Rightarrow> Sources \<Rightarrow> Receivers \<Rightarrow> py_error + 'v denise" where
  "engine_checks d m src rcv =
     (let d1 = (set_model d m)\<lparr>NREC := length (rec_x rcv), NSRC := length (src_x src)\<rparr> in
      case check_max_frequency (verbose d1) (model d1) (max_relative_error d1) (FD_ORDER d1) (DH d1) of
        Inl e \<Rightarrow> Inl e
      | Inr _ \<Rightarrow>
          (case check_domain_decomp (NX d1) (NY d1) (NPROCX d1) (NPROCY d1) of
             Inl e \<Rightarrow> Inl e
           | Inr _ \<Rightarrow> compute_dt d1))"

text \<open>\<open>_write_model\<close>: three binary files.\<close>

definition write_model :: "'v denise \<Rightarrow> event list" where
  "write_model d =
     [WriteData (MFILE d @ ''.vp''), WriteData (MFILE d @ ''.vs''), WriteData (MFILE d @ ''.rho'')]"

text \<open>\<open>'/'.join(path.split('/')[:-1])\<close>.\<close>

definition parent_of :: "string \<Rightarrow> string" where
  "parent_of p = join ''/'' (butlast (split_on (CHR ''/'') p))"

text \<open>\<open>_write_src_rec\<close>: the receiver file, the source file, and the four \<open>.npy\<close>
  files beside them.\<close>

definition write_src_rec :: "'v denise \<Rightarrow> event list" where
  "write_src_rec d =
     [WriteData (REC_FILE d @ ''.dat''),
      WriteData (SOURCE_FILE d),
      WriteData (parent_of (REC_FILE d) @ ''/rec_x.npy''),
      WriteData (parent_of (REC_FILE d) @ ''/rec_y.npy''),
      WriteData (parent_of (SOURCE_FILE d) @ ''/src_x.npy''),
      WriteData (parent_of (SOURCE_FILE d) @ ''/src_y.npy'')]"

text \<open>
  The files of \<open>_engine\<close>: the model, the sources and receivers (in streamer mode once
  for each source, with \<open>REC_FILE\<close> set to the file of that shot and restored after the
  loop), and the parameter file.
\<close>

definition engine_writes :: "'v denise \<Rightarrow> Sources \<Rightarrow> event list \<times> 'v denise" where
  "engine_writes d src =
     (if N_STREAMER d > 0 then
        (write_model d
         @ concat (map (\<lambda>isrc. write_src_rec (d\<lparr>REC_FILE := REC_FILE d @ ''_shot_'' @ str_nat isrc\<rparr>))
                    [1 ..< length (src_x src) + 1])
         @ [WriteData (filename d)],
         d\<lparr>READREC := 2\<rparr>)
      else (write_model d @ write_src_rec d @ [WriteData (filename d)], d))"

text \<open>The command line of the external program, and \<open>_cmd\<close>, which prints and runs
  it. An empty \<open>run_command\<close> counts as none.\<close>

definition command_line :: "'v denise \<Rightarrow> string option \<Rightarrow> string" where
  "command_line d run_command =
     (case run_command of
        None \<Rightarrow> ''mpirun -np '' @ str_int (NPROCX d * NPROCY d)
      | Some c \<Rightarrow> if c = [] then ''mpirun -np '' @ str_int (NPROCX d * NPROCY d) else c)
     @ '' '' @ '' '' @ path_join (root_denise d) ''bin/denise '' @ '' '' @ filename d
     @ '' '' @ filename_workflow d"

text \<open>
  \<open>_engine\<close>. \<open>src\<close> and \<open>rec\<close> default to \<open>None\<close> in \<open>forward\<close> and \<open>fwi\<close>, and
  \<open>len(rec.x)\<close> then raises. When the method raises, the result is the events up to
  there and the exception.
\<close>

definition engine ::
    "'v denise \<Rightarrow> Model \<Rightarrow> Sources option \<Rightarrow> Receivers option \<Rightarrow> string option \<Rightarrow> bool \<Rightarrow>
     event list \<times> (py_error + 'v denise)" where
  "engine d m src rcv run_command disable =
     (case rcv of
        None \<Rightarrow> (create_folders (save_folder d), Inl AttributeError)
      | Some r \<Rightarrow>
     (case src of
        None \<Rightarrow> (create_folders (save_folder d), Inl AttributeError)
      | Some s \<Rightarrow>
     (case engine_checks (set_paths d) m s r of
        Inl e \<Rightarrow> (create_folders (save_folder d), Inl e)
      | Inr d1 \<Rightarrow>
          (create_folders (save_folder d)
           @ fst (engine_writes d1 s)
           @ (if disable then []
              else [Print (command_line (snd (engine_writes d1 s)) run_command),
                    Launch (command_line (snd (engine_writes d1 s)) run_command),
                    PrintDone]),
           Inr (snd (engine_writes d1 s))))))"

text \<open>\<open>forward\<close> and \<open>fwi\<close>.\<close>

definition forward ::
    "'v denise \<Rightarrow> Model \<Rightarrow> Sources option \<Rightarrow> Receivers option \<Rightarrow> string option \<Rightarrow> bool \<Rightarrow>
     event list \<times> (py_error + 'v denise)" where
  "forward d m src rcv run_command disable = engine (d\<lparr>MODE := 0\<rparr>) m src rcv run_command disable"

definition fwi ::
    "('v \<Rightarrow> string) \<Rightarrow> 'v denise \<Rightarrow> Model \<Rightarrow> Sources option \<Rightarrow> Receivers option \<Rightarrow>
     string option \<Rightarrow> bool \<Rightarrow> event list \<times> (py_error + 'v denise)" where
  "fwi str d m src rcv run_command disable =
     (if length (fwi_stages d) > 0 then
        (write_denise_workflow_header (filename_workflow d)
         # map (write_denise_workflow str (filename_workflow d)) (fwi_stages d)
         @ fst (engine (d\<lparr>MODE := 1\<rparr>) m src rcv run_command disable),
         snd (engine (d\<lparr>MODE := 1\<rparr>) m src rcv run_command disable))
      else
        ([Print ''WARNING! Denise.fwi_stages is empty! Append api.StageFWI() to it.''],
         Inr (d\<lparr>MODE := 1\<rparr>)))"

subsection \<open>The demo of the module\<close>

text \<open>
  The model of the \<open>__main__\<close> block: \<open>ny, nx = 174, 500\<close>, \<open>dx = 20\<close>,
  \<open>vp = 3500. * np.ones((ny, nx))\<close>, \<open>vs = vp / 1.7\<close>, \<open>rho = 1800.0\<close> throughout.
\<close>

definition full :: "nat \<Rightarrow> nat \<Rightarrow> real \<Rightarrow> ndarray" where
  "full ny nx v = \<lparr>n_rows = ny, n_cols = nx, flat = replicate (ny * nx) v\<rparr>"

definition demo_model :: Model where
  "demo_model = \<lparr>vp = full 174 500 3500, vs = full 174 500 (3500 / 1.7),
                  rho = full 174 500 1800, dx = 20\<rparr>"

text \<open>
  An object for concrete runs: \<open>verbose\<close>, the save folder, the file name stem and the
  process grid are those of the demo; the other attributes come from the parameter
  file of the installation in the program and are example values here. The paths are
  those that \<open>set_paths\<close> computes in the constructor.
\<close>

definition demo_denise :: "'v stage list \<Rightarrow> 'v denise" where
  "demo_denise stages =
     set_paths
       \<lparr>verbose = 1, root_denise = ''./'', save_folder = ''./outputs/'', SEIS_FILE_NAME = ''seis'',
        model = \<lparr>vp = full 0 0 0, vs = full 0 0 0, rho = full 0 0 0, dx = 0\<rparr>,
        fwi_stages = stages, NX = 500, NY = 174, DH = 20, NREC = 0, NSRC = 0,
        NPROCX = 5, NPROCY = 3, MODE = 0, DT = None, NT = None, TIME = 6,
        FD_ORDER = 6, max_relative_error = 0, N_STREAMER = 0, READREC = 1,
        VPUPPERLIM = 6000, VSUPPERLIM = 4000,
        filename = [], filename_workflow = [], MFILE = [], REC_FILE = [], SOURCE_FILE = []\<rparr>"

text \<open>A model of the demo's kind that is one column wider, 174 by 501.\<close>

definition wide_model :: Model where
  "wide_model = \<lparr>vp = full 174 501 3500, vs = full 174 501 (3500 / 1.7),
                  rho = full 174 501 1800, dx = 20\<rparr>"

text \<open>Two sources and three receivers.\<close>

definition demo_src :: Sources where
  "demo_src = \<lparr>src_x = [800, 1760], src_y = [40, 40]\<rparr>"

definition demo_rec :: Receivers where
  "demo_rec = \<lparr>rec_x = [800, 820, 840], rec_y = [460, 460, 460]\<rparr>"

text \<open>A stage with integer values, one of them a non-zero \<open>normalize\<close>.\<close>

definition demo_args :: "int stage_args" where
  "demo_args =
     \<lparr>pro = 1, time_filt = 1, fc_low = 0, fc_high = 5, order_arg = 6, time_win = 0,
      gamma_arg = 20, twin_minus = 0, twin_plus = 0, inv_vp_iter = 0, inv_vs_iter = 0,
      inv_rho_iter = 0, inv_qs_iter = 0, spatfilter = 0, wd_damp = 1, wd_damp1 = 1,
      e_precond = 3, lnorm = 2, stf = 0, offsetc_stf = -4, eps_stf = 1, normalize = 7,
      offset_mute = 0, offsetc = 10, scale_rho = 1, scale_qs = 1, env = 1, n_order = 0\<rparr>"

section \<open>Properties\<close>

subsection \<open>Domain decomposition\<close>

text \<open>
  C3. For positive grid sizes and process counts the domain decomposition check succeeds
  exactly when the grid size is a multiple of the process count on both axes, and
  otherwise it fails with the assertion error of the first axis that does not divide.
  On the demo grid, 500 by 174 points on 5 by 3 processes pass, 501 by 174 do not.
\<close>

theorem check_domain_decomp_iff:
  assumes "0 < nx" and "0 < ny" and "0 < nprocx" and "0 < nprocy"
  shows "((check_domain_decomp nx ny nprocx nprocy = Inr ())
            = (nx mod nprocx = 0 \<and> ny mod nprocy = 0))
       \<and> (check_domain_decomp nx ny nprocx nprocy \<noteq> Inr () \<longrightarrow>
            check_domain_decomp nx ny nprocx nprocy
              = Inl (AssertionError (if nx mod nprocx = 0
                   then ''Error!!! Make sure NY % NPROCY = 0''
                   else ''Error!!! Make sure NX % NPROCX = 0'')))"
  using assms by (simp add: check_domain_decomp_def check_def)

theorem check_domain_decomp_iff_witness:
  "check_domain_decomp 500 174 5 3 = Inr ()
   \<and> check_domain_decomp 501 174 5 3 = Inl (AssertionError ''Error!!! Make sure NX % NPROCX = 0'')"
proof -
  have ok: "check_domain_decomp 500 174 5 3 = Inr ()"
    using check_domain_decomp_iff [of 500 174 5 3] by simp
  have "check_domain_decomp 501 174 5 3 \<noteq> Inr ()"
    using check_domain_decomp_iff [of 501 174 5 3] by simp
  then have "check_domain_decomp 501 174 5 3
      = Inl (AssertionError ''Error!!! Make sure NX % NPROCX = 0'')"
    using check_domain_decomp_iff [of 501 174 5 3] by simp
  with ok show ?thesis by simp
qed
subsection \<open>Binary64 arithmetic: rounding\<close>

lemma round_even_cases:
  "round_even y = \<lfloor>y\<rfloor> \<or> round_even y = \<lfloor>y\<rfloor> + 1"
  by (simp add: round_even_def)

lemma round_even_eqI:
  assumes "\<bar>y - of_int m\<bar> < 1 / 2"
  shows "round_even y = m"
proof -
  consider "of_int m \<le> y" | "y < of_int m" by linarith
  then show ?thesis
  proof cases
    case 1
    then have f: "\<lfloor>y\<rfloor> = m" using assms by (intro floor_unique) linarith+
    show ?thesis using assms 1 by (simp add: round_even_def f)
  next
    case 2
    have f: "\<lfloor>y\<rfloor> = m - 1"
    proof (rule floor_unique)
      show "of_int (m - 1) \<le> y" using assms 2 by (simp add: abs_less_iff)
      show "y < of_int (m - 1) + 1" using 2 by simp
    qed
    show ?thesis using assms 2 by (simp add: round_even_def f)
  qed
qed

lemma round_even_of_int [simp]: "round_even (of_int m) = m"
  by (rule round_even_eqI) simp

lemma round_even_lower: "of_int n \<le> y \<Longrightarrow> n \<le> round_even y"
proof -
  assume "of_int n \<le> y"
  then have "n \<le> \<lfloor>y\<rfloor>" by (simp add: le_floor_iff)
  then show ?thesis using round_even_cases [of y] by linarith
qed

lemma round_even_upper: "y \<le> of_int n \<Longrightarrow> round_even y \<le> n"
proof -
  assume le: "y \<le> of_int n"
  show ?thesis
  proof (cases "y = of_int n")
    case True
    then show ?thesis by simp
  next
    case False
    with le have "y < of_int n" by simp
    then have "\<lfloor>y\<rfloor> < n" by (simp add: floor_less_iff)
    then show ?thesis using round_even_cases [of y] by linarith
  qed
qed

lemma round_even_mono:
  assumes "x \<le> y"
  shows "round_even x \<le> round_even y"
proof -
  have fl: "\<lfloor>x\<rfloor> \<le> \<lfloor>y\<rfloor>" using assms by (rule floor_mono)
  show ?thesis
  proof (cases "\<lfloor>x\<rfloor> = \<lfloor>y\<rfloor>")
    case True
    have "x - of_int \<lfloor>x\<rfloor> \<le> y - of_int \<lfloor>y\<rfloor>" using assms True by simp
    then show ?thesis
      unfolding round_even_def True by (auto split: if_splits)
  next
    case False
    with fl have lt: "\<lfloor>x\<rfloor> + 1 \<le> \<lfloor>y\<rfloor>" by linarith
    have "round_even x \<le> \<lfloor>x\<rfloor> + 1" using round_even_cases [of x] by linarith
    moreover have "\<lfloor>y\<rfloor> \<le> round_even y" using round_even_cases [of y] by linarith
    ultimately show ?thesis using lt by linarith
  qed
qed

lemma round_even_minus: "round_even (- y) = - round_even y"
proof (cases "y = of_int \<lfloor>y\<rfloor>")
  case True
  then obtain m where "y = of_int m" ..
  then show ?thesis by (simp flip: of_int_minus)
next
  case False
  have frac: "0 < y - of_int \<lfloor>y\<rfloor>" "y - of_int \<lfloor>y\<rfloor> < 1"
  proof -
    have "of_int \<lfloor>y\<rfloor> \<le> y" by simp
    with False show "0 < y - of_int \<lfloor>y\<rfloor>" by linarith
    show "y - of_int \<lfloor>y\<rfloor> < 1" by linarith
  qed
  have fl: "\<lfloor>- y\<rfloor> = - \<lfloor>y\<rfloor> - 1"
  proof (rule floor_unique)
    show "of_int (- \<lfloor>y\<rfloor> - 1) \<le> - y" using frac by simp
    show "- y < of_int (- \<lfloor>y\<rfloor> - 1) + 1" using frac by simp
  qed
  show ?thesis
    unfolding round_even_def fl using frac
    by (auto simp: algebra_simps split: if_splits)
qed


lemma binade:
  assumes "x \<noteq> 0"
  shows "2 powr (of_int \<lfloor>log 2 \<bar>x\<bar>\<rfloor>) \<le> \<bar>x\<bar>"
    and "\<bar>x\<bar> < 2 powr (of_int \<lfloor>log 2 \<bar>x\<bar>\<rfloor> + 1)"
  using floor_log_eq_powr_iff [of "\<bar>x\<bar>" 2 "\<lfloor>log 2 \<bar>x\<bar>\<rfloor>"] assms by simp_all

lemma ulp_scaled:
  assumes "x \<noteq> 0"
  shows "2 ^ 52 \<le> \<bar>x\<bar> / 2 powr (of_int \<lfloor>log 2 \<bar>x\<bar>\<rfloor> - 52)"
    and "\<bar>x\<bar> / 2 powr (of_int \<lfloor>log 2 \<bar>x\<bar>\<rfloor> - 52) < 2 ^ 53"
proof -
  let ?e = "of_int \<lfloor>log 2 \<bar>x\<bar>\<rfloor> :: real"
  have u: "2 powr (?e - 52) = 2 powr ?e / 2 ^ 52"
    by (simp add: powr_diff)
  have p: "0 < (2::real) powr ?e" by simp
  have hi: "\<bar>x\<bar> < 2 powr ?e * 2" using binade(2) [OF assms] by (simp add: powr_add)
  show "2 ^ 52 \<le> \<bar>x\<bar> / 2 powr (?e - 52)"
    unfolding u using binade(1) [OF assms] p by (simp add: le_divide_eq)
  have "\<bar>x\<bar> * 2 ^ 52 < 2 ^ 53 * 2 powr ?e" using hi by simp
  then show "\<bar>x\<bar> / 2 powr (?e - 52) < 2 ^ 53"
    unfolding u using p by (simp add: divide_less_eq)
qed

lemma exponent_eqI:
  assumes "2 ^ 52 \<le> \<bar>x\<bar> * 2 ^ k" and "\<bar>x\<bar> * 2 ^ k < 2 ^ 53"
  shows "\<lfloor>log 2 \<bar>x\<bar>\<rfloor> = 52 - int k"
proof -
  have x: "0 < \<bar>x\<bar>" using assms(1) by (cases "x = 0") simp_all
  have p: "(2::real) powr (of_int (52 - int k)) = 2 ^ 52 / 2 ^ k"
    by (simp add: powr_diff powr_realpow)
  have q: "(2::real) powr (of_int (52 - int k + 1)) = 2 ^ 53 / 2 ^ k"
  proof -
    have "(2::real) powr (of_int (52 - int k + 1)) = 2 powr (53 - real k)" by simp
    also have "\<dots> = 2 ^ 53 / 2 ^ k" by (simp add: powr_diff powr_realpow)
    finally show ?thesis .
  qed
  have "2 powr (of_int (52 - int k)) \<le> \<bar>x\<bar>"
    unfolding p using assms(1) by (simp add: divide_le_eq)
  moreover have "\<bar>x\<bar> < 2 powr (of_int (52 - int k + 1))"
    unfolding q using assms(2) by (simp add: less_divide_eq)
  ultimately show ?thesis
    using floor_log_eq_powr_iff [of "\<bar>x\<bar>" 2 "52 - int k"] x by simp
qed

lemma rnd64_eqI:
  assumes "2 ^ 52 \<le> \<bar>x\<bar> * 2 ^ k" and "\<bar>x\<bar> * 2 ^ k < 2 ^ 53"
    and "\<bar>x * 2 ^ k - of_int m\<bar> < 1 / 2" and "r = of_int m / 2 ^ k"
  shows "rnd64 x = r"
proof -
  have x: "x \<noteq> 0" using assms(1) by (cases "x = 0") simp_all
  have e: "\<lfloor>log 2 \<bar>x\<bar>\<rfloor> = 52 - int k" using exponent_eqI [OF assms(1,2)] .
  have u: "(2::real) powr (of_int (52 - int k) - 52) = 1 / 2 ^ k"
  proof -
    have "(2::real) powr (of_int (52 - int k) - 52) = 2 powr (- real k)" by simp
    also have "\<dots> = 1 / 2 ^ k" by (simp add: powr_minus_divide powr_realpow)
    finally show ?thesis .
  qed
  have "round_even (x * 2 ^ k) = m" using assms(3) by (rule round_even_eqI)
  then show ?thesis
    unfolding rnd64_def e u using x assms(4) by simp
qed

lemma rnd64_zero [simp]: "rnd64 0 = 0"
  by (simp add: rnd64_def)

lemma rnd64_minus: "rnd64 (- x) = - rnd64 x"
  by (simp add: rnd64_def round_even_minus flip: minus_divide_left)

lemma rnd64_pos_bounds:
  assumes "0 < x"
  shows "2 powr (of_int \<lfloor>log 2 x\<rfloor>) \<le> rnd64 x"
    and "rnd64 x \<le> 2 powr (of_int \<lfloor>log 2 x\<rfloor> + 1)"
proof -
  let ?e = "of_int \<lfloor>log 2 x\<rfloor> :: real"
  let ?u = "(2::real) powr (?e - 52)"
  have x: "x \<noteq> 0" "\<bar>x\<bar> = x" using assms by simp_all
  have r: "rnd64 x = of_int (round_even (x / ?u)) * ?u"
    using x by (simp add: rnd64_def)
  have lo: "(2::int) ^ 52 \<le> round_even (x / ?u)"
    using ulp_scaled(1) [OF x(1)] x(2) by (intro round_even_lower) simp
  have hi: "round_even (x / ?u) \<le> (2::int) ^ 53"
    using ulp_scaled(2) [OF x(1)] x(2) by (intro round_even_upper) simp
  have u52: "2 ^ 52 * ?u = 2 powr ?e" by (simp add: powr_diff)
  have u53: "2 ^ 53 * ?u = 2 powr (?e + 1)" by (simp add: powr_diff powr_add)
  have "2 ^ 52 * ?u \<le> of_int (round_even (x / ?u)) * ?u"
  proof (rule mult_right_mono)
    have "real_of_int (2 ^ 52) \<le> of_int (round_even (x / ?u))" using lo by (simp only: of_int_le_iff)
    then show "2 ^ 52 \<le> real_of_int (round_even (x / ?u))" by simp
  qed simp
  then show "2 powr ?e \<le> rnd64 x" unfolding r u52 .
  have "of_int (round_even (x / ?u)) * ?u \<le> 2 ^ 53 * ?u"
  proof (rule mult_right_mono)
    have "real_of_int (round_even (x / ?u)) \<le> of_int (2 ^ 53)" using hi by (simp only: of_int_le_iff)
    then show "real_of_int (round_even (x / ?u)) \<le> 2 ^ 53" by simp
  qed simp
  then show "rnd64 x \<le> 2 powr (?e + 1)" unfolding r u53 .
qed

lemma rnd64_pos:
  assumes "0 < x"
  shows "0 < rnd64 x"
proof -
  have "0 < (2::real) powr (of_int \<lfloor>log 2 x\<rfloor>)" by simp
  then show ?thesis using rnd64_pos_bounds(1) [OF assms] by linarith
qed

lemma rnd64_pos_mono:
  assumes "0 < x" and "x \<le> y"
  shows "rnd64 x \<le> rnd64 y"
proof -
  have y: "0 < y" using assms by linarith
  let ?e = "\<lfloor>log 2 x\<rfloor>" and ?f = "\<lfloor>log 2 y\<rfloor>"
  have ef: "?e \<le> ?f" using assms by (intro floor_mono) simp
  show ?thesis
  proof (cases "?e = ?f")
    case True
    let ?u = "(2::real) powr (of_int ?e - 52)"
    have "x / ?u \<le> y / ?u" using assms(2) by (simp add: divide_right_mono)
    then have "round_even (x / ?u) \<le> round_even (y / ?u)" by (rule round_even_mono)
    then have "real_of_int (round_even (x / ?u)) * ?u \<le> real_of_int (round_even (y / ?u)) * ?u"
      by (intro mult_right_mono) simp_all
    then show ?thesis
      using assms(1) y by (simp add: rnd64_def True [symmetric])
  next
    case False
    with ef have "?e + 1 \<le> ?f" by linarith
    then have "(2::real) powr (of_int ?e + 1) \<le> 2 powr (of_int ?f)"
      by (metis of_int_1 of_int_add of_int_le_iff one_le_numeral powr_mono)
    then show ?thesis
      using rnd64_pos_bounds(2) [OF assms(1)] rnd64_pos_bounds(1) [OF y] by linarith
  qed
qed

lemma rnd64_mono:
  assumes "x \<le> y"
  shows "rnd64 x \<le> rnd64 y"
proof -
  consider "0 < x" | "x \<le> 0" "0 \<le> y" | "y < 0" using assms by linarith
  then show ?thesis
  proof cases
    case 1
    then show ?thesis using assms by (rule rnd64_pos_mono)
  next
    case 2
    have "rnd64 x \<le> 0"
    proof (cases "x = 0")
      case False
      with 2 have "0 < - x" by simp
      then have "0 < rnd64 (- x)" by (rule rnd64_pos)
      then show ?thesis by (simp add: rnd64_minus)
    qed simp
    moreover have "0 \<le> rnd64 y"
    proof (cases "y = 0")
      case False
      with 2 have "0 < y" by simp
      then show ?thesis using rnd64_pos [of y] by simp
    qed simp
    ultimately show ?thesis by linarith
  next
    case 3
    then have "0 < - y" "- y \<le> - x" using assms by simp_all
    then have "rnd64 (- y) \<le> rnd64 (- x)" by (rule rnd64_pos_mono)
    then show ?thesis by (simp add: rnd64_minus)
  qed
qed



lemma rnd64_neg:
  assumes "x < 0"
  shows "rnd64 x < 0"
proof -
  have "0 < rnd64 (- x)" using assms by (intro rnd64_pos) simp
  then show ?thesis by (simp add: rnd64_minus)
qed

lemma rnd64_nonneg: "0 \<le> x \<Longrightarrow> 0 \<le> rnd64 x"
  using rnd64_mono [of 0 x] by simp

lemma rnd64_abs: "\<bar>rnd64 x\<bar> = rnd64 \<bar>x\<bar>"
proof (cases "0 \<le> x")
  case True
  then show ?thesis using rnd64_nonneg [of x] by simp
next
  case False
  then have "rnd64 x < 0" by (intro rnd64_neg) simp
  then show ?thesis using False by (simp add: rnd64_minus)
qed

lemma in_range64I:
  assumes "2 ^ 52 \<le> \<bar>x\<bar> * 2 ^ k" and "\<bar>x\<bar> * 2 ^ k < 2 ^ 53" and "k \<le> 1074"
  shows "in_range64 x"
proof -
  have p: "(0::real) < 2 ^ k" by simp
  have "(2::real) ^ k \<le> 2 ^ 1074" using assms(3) by (intro power_increasing) simp_all
  also have "\<dots> = 2 ^ 52 * 2 ^ 1022" by (simp flip: power_add)
  finally have "(2::real) ^ k / 2 ^ 1022 \<le> 2 ^ 52" by (simp add: divide_le_eq)
  then have "(2::real) ^ k / 2 ^ 1022 \<le> \<bar>x\<bar> * 2 ^ k" using assms(1) by linarith
  then have "(1 / 2 ^ 1022) * 2 ^ k \<le> \<bar>x\<bar> * 2 ^ k" by simp
  then have lo: "1 / 2 ^ 1022 \<le> \<bar>x\<bar>" using p by (simp only: mult_le_cancel_right_pos)
  have x: "x \<noteq> 0" using assms(1) by (cases "x = 0") simp_all
  have e: "\<lfloor>log 2 \<bar>x\<bar>\<rfloor> = 52 - int k" using exponent_eqI [OF assms(1,2)] .
  have "\<bar>rnd64 x\<bar> = rnd64 \<bar>x\<bar>" by (rule rnd64_abs)
  also have "\<dots> \<le> 2 powr (of_int \<lfloor>log 2 \<bar>x\<bar>\<rfloor> + 1)"
    using rnd64_pos_bounds(2) [of "\<bar>x\<bar>"] x by simp
  also have "\<dots> = 2 powr (53 - real k)" unfolding e by simp
  also have "\<dots> \<le> 2 powr 53" by (intro powr_mono) simp_all
  also have "\<dots> = 2 ^ 53" by (simp add: powr_numeral)
  also have "\<dots> < (2::real) ^ 1024" by (intro power_strict_increasing) simp_all
  finally have "\<bar>rnd64 x\<bar> < 2 ^ 1024" .
  with lo show ?thesis by (simp add: in_range64_def)
qed

lemma in_range64_zero [simp]: "in_range64 0"
  by (simp add: in_range64_def)

lemma rounds_toI:
  assumes "2 ^ 52 \<le> \<bar>x\<bar> * 2 ^ k" and "\<bar>x\<bar> * 2 ^ k < 2 ^ 53"
    and "\<bar>x * 2 ^ k - of_int m\<bar> < 1 / 2" and "r = of_int m / 2 ^ k" and "k \<le> 1074"
  shows "rounds_to x r"
  unfolding rounds_to_def
  using in_range64I [OF assms(1,2,5)] rnd64_eqI [OF assms(1-4)] by simp

lemma rounds_to_zero [simp]: "rounds_to 0 0"
  by (simp add: rounds_to_def)

lemma fl_eq: "rounds_to x r \<Longrightarrow> fl x f = f r"
  by (simp add: rounds_to_def fl_def)


subsection \<open>Stability check: auxiliary facts\<close>

lemma chosen_eq:
  "map snd (filter (\<lambda>(i, e). map (\<lambda>e. (m::real) \<ge> e) endings ! i) (enumerate 0 endings))
     = filter (\<lambda>e. e \<le> m) endings"
  by (simp add: endings_def enumerate_eq_zip upt_rec [of 0] upt_rec [of 1] upt_rec [of 2] upt_rec [of 3] upt_rec [of 4] upt_rec[of 5])

lemma np_max_chosen:
  "np_max (filter (\<lambda>e. e \<le> m) endings) = (if 10 \<le> m then Inr (nice m) else Inl ValueError)"
  by (simp add: endings_def np_max_def nice_def)



lemma selection_eq:
  "(let mask = map (\<lambda>e. (m::real) \<ge> e) endings;
        chosen = map snd (filter (\<lambda>(i, e). mask ! i) (enumerate 0 endings))
    in (case np_max chosen of
          Inl e \<Rightarrow> Inl e
        | Inr last2digits' \<Rightarrow> fl (last2digits' * p) Inr))
   = (if 10 \<le> m then fl (nice m * p) Inr else Inl ValueError)"
  unfolding Let_def chosen_eq np_max_chosen by simp

text \<open>The rounding step, evaluated from the results of its operations.\<close>

lemma round_dt_eqI:
  assumes "rounds_to (rnd64 (99 / 100) * dt) x" and "0 < x"
    and "in_range64 (log 10 x)" and "\<lfloor>rnd64 (log 10 x)\<rfloor> = k"
    and "rounds_to (10 powr (of_int k - 1)) p" and "rounds_to (x / p) m"
  shows "round_dt dt = (if 10 \<le> m then fl (nice m * p) Inr else Inl ValueError)"
proof -
  have nx: "\<not> x \<le> 0" using assms(2) by simp
  have lg: "fl (log 10 x) f = f (rnd64 (log 10 x))" for f :: "real \<Rightarrow> py_error + real"
    using assms(3) by (simp add: fl_def)
  show ?thesis
    unfolding round_dt_def selection_eq
    by (simp only: fl_eq [OF assms(1)] nx if_False lg assms(4) fl_eq [OF assms(5)]
        fl_eq [OF assms(6)])
qed




text \<open>The whole check, evaluated from the results of its operations.\<close>

lemma check_stability_eqI:
  assumes "hc c = Some coeffs" and "py_item coeffs (half_order fd_order - 1) = Inr row"
    and "np_sum (map (\<lambda>c. \<bar>rnd64 c\<bar>) row) = g"
    and "rounds_to (rnd64 (sqrt 2) * g) a"
    and "(if maxvp < maxvs then maxvs else maxvp) = v"
    and "rounds_to (a * v) den"
    and "rounds_to (dh / den) dt"
  shows "check_stability c fd_order dh maxvp maxvs = round_dt dt"
  unfolding check_stability_def Let_def
  by (simp only: assms(1,2,3,5) option.case sum.case fl_eq [OF assms(4)] fl_eq [OF assms(6)]
      fl_eq [OF assms(7)])


subsection \<open>Stability check: constants of the computation\<close>

lemma rnd64_one: "rnd64 1 = 1"
  by (rule rnd64_eqI [where k = 52 and m = "4503599627370496"]) simp_all

lemma sqrt2_bounds:
  "12738103345051545 / 9007199254740992 < sqrt 2"
  "sqrt 2 < 12738103345051547 / 9007199254740992"
  by (rule real_less_rsqrt, simp add: power2_eq_square)
     (rule real_less_lsqrt, simp_all add: power2_eq_square)

text \<open>\<open>np.sqrt(2.)\<close> is 1.4142135623730951.\<close>

lemma rnd64_sqrt2: "rnd64 (sqrt 2) = 6369051672525773 / 4503599627370496"
proof (rule rnd64_eqI [where k = 52 and m = "6369051672525773"])
  have s: "\<bar>sqrt 2\<bar> = sqrt 2" by simp
  show "2 ^ 52 \<le> \<bar>sqrt 2\<bar> * 2 ^ 52" unfolding s using sqrt2_bounds(1) by simp
  show "\<bar>sqrt 2\<bar> * 2 ^ 52 < 2 ^ 53" unfolding s using sqrt2_bounds(2) by simp
  have "sqrt 2 * 2 ^ 52 - of_int 6369051672525773 < 1 / 2"
    and "- (sqrt 2 * 2 ^ 52 - of_int 6369051672525773) < 1 / 2"
    using sqrt2_bounds by simp_all
  then show "\<bar>sqrt 2 * 2 ^ 52 - of_int 6369051672525773\<bar> < 1 / 2"
    by (simp only: abs_less_iff)
qed simp

text \<open>The literal \<open>0.99\<close>.\<close>

lemma rnd64_099: "rnd64 (99 / 100) = 4458563631096791 / 4503599627370496"
  by (rule rnd64_eqI [where k = 53 and m = "8917127262193582"]) simp_all

text \<open>The powers \<open>10 ** -4\<close> and \<open>10 ** -7\<close>.\<close>

lemma powr10_3: "(10::real) powr (of_int (- 3) - 1) = 1 / 10 ^ 4"
  by (simp add: powr_minus_divide)

lemma powr10_6: "(10::real) powr (of_int (- 6) - 1) = 1 / 10 ^ 7"
  by (simp add: powr_minus_divide)

lemma pow10_3: "rounds_to (10 powr (of_int (- 3) - 1)) (7378697629483821 / 73786976294838206464)"
  unfolding powr10_3
  by (rule rounds_toI [where k = 66 and m = "7378697629483821"]) simp_all

lemma pow10_6: "rounds_to (10 powr (of_int (- 6) - 1)) (944473296573929 / 9444732965739290427392)"
  unfolding powr10_6
  by (rule rounds_toI [where k = 76 and m = "7555786372591432"]) simp_all

text \<open>The rows of the Taylor table for \<open>FD_ORDER\<close> 2 and 6, and their \<open>gamma\<close>.\<close>

lemma taylor_item_2: "py_item hc_taylor (half_order 2 - 1) = Inr [1, 0, 0, 0, 0, 0]"
  by (simp add: py_item_def half_order_def hc_taylor_def)

lemma taylor_item_6:
  "py_item hc_taylor (half_order 6 - 1) = Inr [75 / 64, - 25 / 384, 3 / 640, 0, 0, 0]"
  by (simp add: py_item_def half_order_def hc_taylor_def)

lemma gamma_taylor_2: "np_sum (map (\<lambda>c. \<bar>rnd64 c\<bar>) [1, 0, 0, 0, 0, 0]) = 1"
  by (simp add: np_sum_def rnd64_one)

lemma taylor3_entry0: "rnd64 (75 / 64) = 75 / 64"
  by (rule rnd64_eqI [where k = 52 and m = "5277655813324800"]) simp_all

lemma taylor3_entry1: "rnd64 (25 / 384) = 4691249611844267 / 72057594037927936"
  by (rule rnd64_eqI [where k = 56 and m = "4691249611844267"]) simp_all

lemma taylor3_entry2: "rnd64 (3 / 640) = 5404319552844595 / 1152921504606846976"
  by (rule rnd64_eqI [where k = 60 and m = "5404319552844595"]) simp_all

lemma taylor3_sum0: "rnd64 (0 + 75 / 64) = 75 / 64"
  by (rule rnd64_eqI [where k = 52 and m = "5277655813324800"]) simp_all

lemma taylor3_sum1:
  "rnd64 (75 / 64 + 4691249611844267 / 72057594037927936) = 5570858914065067 / 4503599627370496"
  by (rule rnd64_eqI [where k = 52 and m = "5570858914065067"]) simp_all

lemma taylor3_sum2:
  "rnd64 (5570858914065067 / 4503599627370496 + 5404319552844595 / 1152921504606846976)
     = 2795984768659183 / 2251799813685248"
  by (rule rnd64_eqI [where k = 52 and m = "5591969537318366"]) simp_all

lemma taylor3_sum3:
  "rnd64 (2795984768659183 / 2251799813685248 + 0) = 2795984768659183 / 2251799813685248"
  by (rule rnd64_eqI [where k = 52 and m = "5591969537318366"]) simp_all

lemma taylor3_abs:
  "map (\<lambda>c. \<bar>rnd64 c\<bar>) [75 / 64, - 25 / 384, 3 / 640, 0, 0, 0]
     = [75 / 64, 4691249611844267 / 72057594037927936, 5404319552844595 / 1152921504606846976,
        0, 0, 0]"
proof -
  have "rnd64 (- 25 / 384) = - (4691249611844267 / 72057594037927936)"
    using rnd64_minus [of "25 / 384"] by (simp add: taylor3_entry1)
  then show ?thesis by (simp add: taylor3_entry0 taylor3_entry2)
qed

text \<open>\<open>gamma\<close> for \<open>FD_ORDER = 6\<close> is 1.2416666666666667.\<close>

lemma gamma_taylor_6:
  "np_sum (map (\<lambda>c. \<bar>rnd64 c\<bar>) [75 / 64, - 25 / 384, 3 / 640, 0, 0, 0])
     = 2795984768659183 / 2251799813685248"
  unfolding taylor3_abs np_sum_def
  by (simp only: foldl.simps taylor3_sum0 taylor3_sum1 taylor3_sum2 taylor3_sum3)

lemma taylor3_a:
  "rounds_to (rnd64 (sqrt 2) * (2795984768659183 / 2251799813685248))
     (7908239160052835 / 4503599627370496)"
  unfolding rnd64_sqrt2
  by (rule rounds_toI [where k = 52 and m = "7908239160052835"]) simp_all

subsection \<open>Stability check: the logarithm\<close>

lemma rnd64_minus3: "rnd64 (- 3) = - 3"
  by (rule rnd64_eqI [where k = 51 and m = "- 6755399441055744"]) simp_all

lemma rnd64_minus17_8: "rnd64 (- (17 / 8)) = - (17 / 8)"
  by (rule rnd64_eqI [where k = 51 and m = "- 4785074604081152"]) simp_all

text \<open>A \<open>_dt\<close> between 0.001 and 0.007 has a logarithm between -3 and -2.125.\<close>

lemma log10_milli:
  assumes "1 / 1000 \<le> x" and "x \<le> 7 / 1000"
  shows "in_range64 (log 10 x)" and "\<lfloor>rnd64 (log 10 x)\<rfloor> = - 3"
proof -
  have x: "0 < x" using assms(1) by linarith
  have "(10::real) powr (- 3) = 1 / 10 ^ 3" by (simp add: powr_minus_divide)
  then have "10 powr (- 3) \<le> x" using assms(1) by simp
  then have lo: "- 3 \<le> log 10 x" using x by (simp add: le_log_iff)
  have p8: "((10::real) powr (- (17 / 8))) ^ 8 = 1 / 10 ^ 17"
  proof -
    have "((10::real) powr (- (17 / 8))) ^ 8 = (10 powr (- (17 / 8))) powr 8"
      by (simp add: powr_numeral)
    also have "\<dots> = 10 powr (- 17)" by (simp add: powr_powr)
    also have "\<dots> = 1 / 10 ^ 17" by (simp add: powr_minus_divide)
    finally show ?thesis .
  qed
  have "(7 / 1000 :: real) ^ 8 \<le> 1 / 10 ^ 17" by (simp add: power_divide)
  then have "(7 / 1000 :: real) ^ 8 \<le> (10 powr (- (17 / 8))) ^ 8" by (simp only: p8)
  then have "(7 / 1000 :: real) \<le> 10 powr (- (17 / 8))"
    by (rule power_le_imp_le_base [where n = 7, simplified]) simp
  then have "x \<le> 10 powr (- (17 / 8))" using assms(2) by linarith
  then have hi: "log 10 x \<le> - (17 / 8)" using x by (simp add: log_le_iff)
  have l: "- 3 \<le> rnd64 (log 10 x)" using rnd64_mono [OF lo] by (simp add: rnd64_minus3)
  have h: "rnd64 (log 10 x) \<le> - (17 / 8)" using rnd64_mono [OF hi] by (simp add: rnd64_minus17_8)
  show "\<lfloor>rnd64 (log 10 x)\<rfloor> = - 3"
  proof (rule floor_unique)
    show "of_int (- 3) \<le> rnd64 (log 10 x)" using l by simp
    show "rnd64 (log 10 x) < of_int (- 3) + 1" using h by simp
  qed
  have a: "\<bar>log 10 x\<bar> = - log 10 x" using hi by simp
  show "in_range64 (log 10 x)"
  proof (rule in_range64I [where k = 51])
    show "2 ^ 52 \<le> \<bar>log 10 x\<bar> * 2 ^ 51" unfolding a using hi by simp
    show "\<bar>log 10 x\<bar> * 2 ^ 51 < 2 ^ 53" unfolding a using lo by simp
  qed simp
qed

lemma ln10_ge_2: "2 \<le> ln (10::real)"
proof -
  have "exp (2::real) = exp 1 * exp 1" by (simp flip: exp_add)
  also have "\<dots> \<le> 3 * 3" using exp_le by (intro mult_mono) simp_all
  finally have "exp (2::real) \<le> 10" by simp
  then have "ln (exp (2::real)) \<le> ln 10" by (intro ln_mono) simp_all
  then show ?thesis by simp
qed

text \<open>
  A \<open>_dt\<close> of 9.999999999999993e-07 lies below \<open>10^-6\<close> by less than 7 parts in \<open>10^16\<close>,
  and its logarithm lies within half a unit in the last place of -6: \<open>np.log10\<close>
  returns -6.0.
\<close>

lemma log10_below_micro:
  "rnd64 (log 10 (2361183241434821 / 2361183241434822606848)) = - 6"
  "in_range64 (log 10 (2361183241434821 / 2361183241434822606848))"
proof -
  define X :: real where "X = 2361183241434821 / 2361183241434822606848"
  define d :: real where "d = 1606848 / 2361183241434822606848"
  define L where "L = log 10 X"
  have X: "0 < X" by (simp add: X_def)
  have Xd: "X = (1 - d) / 10 ^ 6" by (simp add: X_def d_def)
  have d1: "0 < 1 - d" by (simp add: d_def)
  have "(10::real) powr (- 6) = 1 / 10 ^ 6" by (simp add: powr_minus_divide)
  then have "X \<le> 10 powr (- 6)" by (simp add: X_def)
  then have hi: "L \<le> - 6" unfolding L_def using X by (simp add: log_le_iff)
  have lnb: "- d - 2 * d\<^sup>2 \<le> ln (1 - d)"
    by (rule ln_one_minus_pos_lower_bound) (simp_all add: d_def)
  have small: "d + 2 * d\<^sup>2 < 1 / 2 ^ 50" by (simp add: d_def power2_eq_square)
  have l10: "0 < ln (10::real)" by simp
  have l6: "ln ((10::real) ^ 6) = 6 * ln 10" by (subst ln_realpow) simp_all
  have "ln X = ln (1 - d) - 6 * ln 10"
    unfolding Xd using d1 l6 by (simp add: ln_div)
  then have Leq: "L = ln (1 - d) / ln 10 - 6"
    unfolding L_def log_def using l10 by (simp add: field_simps)
  have "- (1 / 2 ^ 51) * ln (10::real) \<le> - (1 / 2 ^ 51) * 2"
    using ln10_ge_2 by (intro mult_left_mono_neg) simp_all
  also have "\<dots> < - d - 2 * d\<^sup>2" using small by simp
  also have "\<dots> \<le> ln (1 - d)" by (rule lnb)
  finally have "- (1 / 2 ^ 51) < ln (1 - d) / ln 10"
    using l10 by (simp add: less_divide_eq)
  then have lo: "- 6 - 1 / 2 ^ 51 < L" unfolding Leq by simp
  have a: "\<bar>L\<bar> = - L" using hi by simp
  have r: "rnd64 L = - 6"
  proof (rule rnd64_eqI [where k = 50 and m = "- 6755399441055744"])
    show "2 ^ 52 \<le> \<bar>L\<bar> * 2 ^ 50" unfolding a using hi by simp
    show "\<bar>L\<bar> * 2 ^ 50 < 2 ^ 53" unfolding a using lo by simp
    show "\<bar>L * 2 ^ 50 - of_int (- 6755399441055744)\<bar> < 1 / 2"
      using lo hi by (simp add: abs_less_iff)
  qed simp
  have i: "in_range64 L"
  proof (rule in_range64I [where k = 50])
    show "2 ^ 52 \<le> \<bar>L\<bar> * 2 ^ 50" unfolding a using hi by simp
    show "\<bar>L\<bar> * 2 ^ 50 < 2 ^ 53" unfolding a using lo by simp
  qed simp
  show "rnd64 (log 10 (2361183241434821 / 2361183241434822606848)) = - 6"
    using r by (simp only: L_def X_def)
  show "in_range64 (log 10 (2361183241434821 / 2361183241434822606848))"
    using i by (simp only: L_def X_def)
qed

subsection \<open>Stability check: evaluations\<close>

text \<open>
  Taylor coefficients, \<open>FD_ORDER = 2\<close>, \<open>DH = 0.0014284985478516103\<close> and both maximum
  velocities 1000. The operations give the divisor 1414.213562373095,
  \<open>dt = 1.0101010101010095e-06\<close>, \<open>_dt = 9.999999999999993e-07\<close>, \<open>_dt10 = 1e-07\<close> and
  \<open>last2digits = 9.999999999999993\<close>.
\<close>

lemma micro_a: "rounds_to (rnd64 (sqrt 2) * 1) (6369051672525773 / 4503599627370496)"
  unfolding rnd64_sqrt2
  by (rule rounds_toI [where k = 52 and m = "6369051672525773"]) simp_all

lemma micro_den:
  "rounds_to (6369051672525773 / 4503599627370496 * 1000) (3109888511975475 / 2199023255552)"
  by (rule rounds_toI [where k = 42 and m = "6219777023950950"]) simp_all

lemma micro_dt:
  "rounds_to (3293893390235549 / 2305843009213693952 / (3109888511975475 / 2199023255552))
     (1192516788603445 / 1180591620717411303424)"
  by (rule rounds_toI [where k = 72 and m = "4770067154413780"]) simp_all

lemma micro_dt_safe:
  "rounds_to (rnd64 (99 / 100) * (1192516788603445 / 1180591620717411303424))
     (2361183241434821 / 2361183241434822606848)"
  unfolding rnd64_099
  by (rule rounds_toI [where k = 72 and m = "4722366482869642"]) simp_all

lemma micro_mantissa:
  "rounds_to (2361183241434821 / 2361183241434822606848 / (944473296573929 / 9444732965739290427392))
     (1407374883553279 / 140737488355328)"
  by (rule rounds_toI [where k = 49 and m = "5629499534213116"]) simp_all

lemma micro_floor: "\<lfloor>rnd64 (log 10 (2361183241434821 / 2361183241434822606848))\<rfloor> = - 6"
  by (simp add: log10_below_micro(1))

lemma check_stability_micro:
  "check_stability 0 2 (3293893390235549 / 2305843009213693952) 1000 1000
     = round_dt (1192516788603445 / 1180591620717411303424)"
  by (rule check_stability_eqI [OF _ taylor_item_2 gamma_taylor_2 micro_a _ micro_den micro_dt])
     (simp_all add: hc_def)

lemma round_dt_micro: "round_dt (1192516788603445 / 1180591620717411303424) = Inl ValueError"
proof -
  have "round_dt (1192516788603445 / 1180591620717411303424)
      = (if (10::real) \<le> 1407374883553279 / 140737488355328
         then fl (nice (1407374883553279 / 140737488355328)
                    * (944473296573929 / 9444732965739290427392)) Inr
         else Inl ValueError)"
    by (rule round_dt_eqI [OF micro_dt_safe _ log10_below_micro(2) micro_floor pow10_6 micro_mantissa])
       simp
  also have "\<dots> = Inl ValueError" by simp
  finally show ?thesis .
qed

text \<open>
  Taylor coefficients and \<open>FD_ORDER = 6\<close>: the check up to the rounding step, and the
  rounding step for a \<open>_dt\<close> between 0.001 and 0.007.
\<close>

lemma taylor6_eval:
  assumes "(if maxvp < maxvs then maxvs else maxvp) = v"
    and "rounds_to (7908239160052835 / 4503599627370496 * v) den"
    and "rounds_to (dh / den) dt"
  shows "check_stability 0 6 dh maxvp maxvs = round_dt dt"
  by (rule check_stability_eqI [OF _ taylor_item_6 gamma_taylor_6 taylor3_a assms])
     (simp add: hc_def)

lemma round_dt_milli:
  assumes "rounds_to (rnd64 (99 / 100) * dt) x" and "1 / 1000 \<le> x" and "x \<le> 7 / 1000"
    and "rounds_to (x / (7378697629483821 / 73786976294838206464)) m"
  shows "round_dt dt = (if 10 \<le> m then fl (nice m * (7378697629483821 / 73786976294838206464)) Inr
                        else Inl ValueError)"
proof -
  have x: "0 < x" using assms(2) by linarith
  show ?thesis
    by (rule round_dt_eqI [OF assms(1) x log10_milli [OF assms(2,3)] pow10_3 assms(4)])
qed

lemma times25: "rounds_to (25 * (7378697629483821 / 73786976294838206464))
                  (5764607523034235 / 2305843009213693952)"
  by (rule rounds_toI [where k = 61 and m = "5764607523034235"]) simp_all


lemma round_dt_25:
  assumes "rounds_to (rnd64 (99 / 100) * dt) x" and "1 / 1000 \<le> x" and "x \<le> 7 / 1000"
    and "rounds_to (x / (7378697629483821 / 73786976294838206464)) m"
    and "25 \<le> m" and "m < 50"
  shows "round_dt dt = Inr (5764607523034235 / 2305843009213693952)"
proof -
  have n: "nice m = 25" and c: "10 \<le> m" using assms(5,6) by (simp_all add: nice_def)
  show ?thesis
    unfolding round_dt_milli [OF assms(1-4)] by (simp only: c if_True n fl_eq [OF times25])
qed


text \<open>The divisor for a maximum velocity of 3500 and of 3501.\<close>

lemma den_3500:
  "rounds_to (7908239160052835 / 4503599627370496 * 3500) (3378764289573355 / 549755813888)"
  by (rule rounds_toI [where k = 40 and m = "6757528579146710"]) simp_all


text \<open>Grid spacing 20, maximum velocity 3500: \<open>dt = 0.0032541826938594703\<close>,
  \<open>_dt = 0.0032216408669208754\<close>, \<open>last2digits = 32.216408669208754\<close>, and the returned
  step is the double 0.0025.\<close>

lemma demo_dt:
  "rounds_to (20 / (3378764289573355 / 549755813888)) (3751817207670023 / 1152921504606846976)"
  by (rule rounds_toI [where k = 61 and m = "7503634415340046"]) simp_all

lemma demo_dt_safe:
  "rounds_to (rnd64 (99 / 100) * (3751817207670023 / 1152921504606846976))
     (7428598071186645 / 2305843009213693952)"
  unfolding rnd64_099
  by (rule rounds_toI [where k = 61 and m = "7428598071186645"]) simp_all

lemma demo_mantissa:
  "rounds_to (7428598071186645 / 2305843009213693952 / (7378697629483821 / 73786976294838206464))
     (4534056439933255 / 140737488355328)"
  by (rule rounds_toI [where k = 47 and m = "4534056439933255"]) simp_all

lemma check_stability_demo:
  assumes "maxvs \<le> 3500"
  shows "check_stability 0 6 20 3500 maxvs = Inr (5764607523034235 / 2305843009213693952)"
proof -
  have "check_stability 0 6 20 3500 maxvs = round_dt (3751817207670023 / 1152921504606846976)"
    by (rule taylor6_eval [OF _ den_3500 demo_dt]) (use assms in simp)
  also have "\<dots> = Inr (5764607523034235 / 2305843009213693952)"
    by (rule round_dt_25 [OF demo_dt_safe _ _ demo_mantissa]) simp_all
  finally show ?thesis .
qed













subsection \<open>Stability check: the documented rule over the real numbers\<close>

lemma Max_candidates:
  assumes "10 \<le> m"
  shows "Max (Set.filter (\<lambda>c. c \<le> m) {10, 20, 25, 50, 80}) = nice m"
proof -
  have "Set.filter (\<lambda>c. c \<le> m) {10, 20, 25, 50, 80} = set (filter (\<lambda>e. e \<le> m) endings)"
    by (auto simp: endings_def)
  also have "Max \<dots> = nice m"
    using assms by (simp add: endings_def nice_def Max.set_eq_fold [symmetric] del: set_filter)
  finally show ?thesis .
qed

text \<open>
  For the input above the documented rule, evaluated exactly, has a \<open>dt_safe\<close> just below
  \<open>10^-6\<close>, a scale of \<open>10^-8\<close>, a mantissa just below 100 and the candidate 80.
\<close>

lemma max_stable_dt_micro:
  "max_stable_dt 0 1 (3293893390235549 / 2305843009213693952) 1000 1000 = 8 / 10 ^ 7"
proof -
  define x :: real where
    "x = 0.99 * (3293893390235549 / 2305843009213693952 / (sqrt 2 * 1000))"
  have raw: "cfl_dt_raw 0 1 (3293893390235549 / 2305843009213693952) 1000 1000
      = 3293893390235549 / 2305843009213693952 / (sqrt 2 * 1000)"
    by (simp add: cfl_dt_raw_def hc_def hc_taylor_def)
  have s: "0 < sqrt 2" by simp
  have xs: "x * sqrt 2 = 99 / 100 * (3293893390235549 / 2305843009213693952) / 1000"
    by (simp add: x_def)
  have "99 / 100 * (3293893390235549 / 2305843009213693952) / 1000 < 1 / 10 ^ 6 * sqrt 2"
    using sqrt2_bounds(1) by simp
  then have "x * sqrt 2 < 1 / 10 ^ 6 * sqrt 2" by (simp only: xs)
  then have hi: "x < 1 / 10 ^ 6" using s by (simp only: mult_less_cancel_right_pos)
  have "8 / 10 ^ 7 * sqrt 2 \<le> 99 / 100 * (3293893390235549 / 2305843009213693952) / 1000"
    using sqrt2_bounds(2) by simp
  then have "8 / 10 ^ 7 * sqrt 2 \<le> x * sqrt 2" by (simp only: xs)
  then have lo: "8 / 10 ^ 7 \<le> x" using s by (simp only: mult_le_cancel_right_pos)
  have x: "0 < x" using lo by simp
  have p7: "10 powr (of_int (- 7)) = (1 / 10 ^ 7 :: real)"
    by (simp add: powr_minus_divide)
  have p6: "10 powr (of_int (- 7 + 1)) = (1 / 10 ^ 6 :: real)"
    by (simp add: powr_minus_divide)
  have p8: "10 powr (of_int (- 7 - 1)) = (1 / 10 ^ 8 :: real)"
    by (simp add: powr_minus_divide)
  have k: "\<lfloor>log 10 x\<rfloor> = - 7"
    using floor_log_eq_powr_iff [of x 10 "- 7"] x lo hi p7 p6 by simp
  have m: "80 \<le> x / (1 / 10 ^ 8)" using lo by simp
  then have n: "nice (x / (1 / 10 ^ 8)) = 80" by (simp add: nice_def)
  have "max_stable_dt 0 1 (3293893390235549 / 2305843009213693952) 1000 1000
      = Max (Set.filter (\<lambda>c. c \<le> x / (1 / 10 ^ 8)) {10, 20, 25, 50, 80}) * (1 / 10 ^ 8)"
    unfolding max_stable_dt_def Let_def raw by (simp only: x_def [symmetric] k p8) 
  also have "\<dots> = nice (x / (1 / 10 ^ 8)) * (1 / 10 ^ 8)"
    using m by (subst Max_candidates) simp_all
  also have "\<dots> = 8 / 10 ^ 7" unfolding n by simp
  finally show ?thesis .
qed

subsection \<open>Stability check: the rounding rule\<close>

text \<open>
  C2. The claim is that for an accuracy class 0 to 4, an operator half-length 1 to 6, a
  positive grid spacing and positive maximum velocities \<open>_check_stability\<close> returns the
  time step of the documented rounding rule. The program does not: with Taylor
  coefficients (class 0), \<open>FD_ORDER = 2\<close> (half-length 1),
  \<open>DH = 0.0014284985478516103\<close> and both maximum velocities 1000 the check raises
  \<open>ValueError\<close>, because \<open>np.log10\<close> of \<open>_dt = 9.999999999999993e-07\<close> is rounded up to
  -6.0, the mantissa is 9.999999999999993 and no candidate is selected. The documented
  rule gives the time step \<open>8 * 10^-7\<close> for this input.
\<close>

theorem check_stability_raises_below_power_of_ten:
  "half_order 2 = 1
   \<and> check_stability 0 2 (3293893390235549 / 2305843009213693952) 1000 1000 = Inl ValueError
   \<and> max_stable_dt 0 1 (3293893390235549 / 2305843009213693952) 1000 1000 = 8 / 10 ^ 7"
  using check_stability_micro round_dt_micro max_stable_dt_micro
  by (simp add: half_order_def)

text \<open>
  C10. The claim is that for every positive finite raw time step the normalized mantissa
  lies in \<open>[10, 100)\<close>, so that the selection of a candidate always succeeds. In the
  program it does not: for the raw time step \<open>dt = 1.0101010101010095e-06\<close> (the one of
  the input of C2, the same defect) the operations \<open>0.99 * dt\<close>, \<open>np.log10\<close>, \<open>10 ** k\<close> and
  the division return the mantissa 9.999999999999993, which is below 10, and the
  rounding step raises \<open>ValueError\<close>.
\<close>

theorem round_dt_mantissa_below_ten:
  "(0::real) < 1192516788603445 / 1180591620717411303424
   \<and> fl (rnd64 (99 / 100) * (1192516788603445 / 1180591620717411303424)) (\<lambda>dt_safe.
        fl (log 10 dt_safe) (\<lambda>lg.
        fl (10 powr (of_int \<lfloor>lg\<rfloor> - 1)) (\<lambda>dt10.
        fl (dt_safe / dt10) Inr)))
      = Inr (1407374883553279 / 140737488355328)
   \<and> (1407374883553279 / 140737488355328 :: real) < 10
   \<and> round_dt (1192516788603445 / 1180591620717411303424) = Inl ValueError"
proof -
  have lg: "fl (log 10 (2361183241434821 / 2361183241434822606848)) f
      = f (rnd64 (log 10 (2361183241434821 / 2361183241434822606848)))"
    for f :: "real \<Rightarrow> py_error + real"
    using log10_below_micro(2) by (simp add: fl_def)
  have "fl (rnd64 (99 / 100) * (1192516788603445 / 1180591620717411303424)) (\<lambda>dt_safe.
        fl (log 10 dt_safe) (\<lambda>lg.
        fl (10 powr (of_int \<lfloor>lg\<rfloor> - 1)) (\<lambda>dt10.
        fl (dt_safe / dt10) Inr)))
      = Inr (1407374883553279 / 140737488355328)"
    by (simp only: fl_eq [OF micro_dt_safe] lg micro_floor fl_eq [OF pow10_6] fl_eq [OF micro_mantissa])
  then show ?thesis using round_dt_micro by simp
qed

subsection \<open>Stability check: monotonicity\<close>





subsection \<open>Parameter file: auxiliary facts\<close>

lemma concat_readlines: "concat (readlines t) = t"
  by (induction t) (auto split: list.splits)

lemma split_on_nonempty: "split_on sep s \<noteq> []"
  by (induction s) auto

lemma join_split_on: "join [sep] (split_on sep s) = s"
proof (induction s)
  case Nil
  show ?case by simp
next
  case (Cons c cs)
  obtain p ps where ps: "split_on sep cs = p # ps"
    using split_on_nonempty [of sep cs] by (cases "split_on sep cs") auto
  with Cons show ?case by (cases ps) auto
qed

lemma split_on_single: "sep \<notin> set s \<Longrightarrow> split_on sep s = [s]"
  by (induction s) auto

lemma split_on_many: "sep \<in> set s \<Longrightarrow> 2 \<le> length (split_on sep s)"
proof (induction s)
  case Nil
  then show ?case by simp
next
  case (Cons c cs)
  obtain p ps where ps: "split_on sep cs = p # ps"
    using split_on_nonempty [of sep cs] by (cases "split_on sep cs") auto
  show ?case
  proof (cases "c = sep")
    case True
    then show ?thesis by (simp add: ps)
  next
    case False
    with Cons have "2 \<le> length (split_on sep cs)" by simp
    with False show ?thesis by (simp add: ps)
  qed
qed

lemma join_butlast:
  "2 \<le> length ps \<Longrightarrow> join sep ps = join sep (butlast ps) @ sep @ last ps"
  by (induction sep ps rule: join.induct) (auto simp: Suc_le_eq)

lemma last_split_on_no_sep: "sep \<notin> set (last (split_on sep s))"
proof (induction s)
  case Nil
  show ?case by simp
next
  case (Cons c cs)
  obtain p ps where ps: "split_on sep cs = p # ps"
    using split_on_nonempty [of sep cs] by (cases "split_on sep cs") auto
  with Cons show ?case by (cases ps) auto
qed

lemma line_decompose:
  assumes "CHR ''='' \<in> set line"
  shows "line = before_last_eq line @ ''='' @ last (split_on (CHR ''='') line)"
proof -
  have "line = join ''='' (split_on (CHR ''='') line)"
    using join_split_on [of "CHR ''=''" line] by simp
  also have "\<dots> = join ''='' (butlast (split_on (CHR ''='') line)) @ ''='' @ last (split_on (CHR ''='') line)"
    by (rule join_butlast) (rule split_on_many [OF assms])
  finally show ?thesis by (simp add: before_last_eq_def)
qed

lemma before_last_eq_none: "CHR ''='' \<notin> set line \<Longrightarrow> before_last_eq line = []"
  by (simp add: before_last_eq_def split_on_single)

lemma set_update_subset: "set (AList.update k v al) \<subseteq> insert (k, v) (set al)"
  by (induction al) auto

lemma snd_update_subset: "snd ` set (AList.update k v al) \<subseteq> insert v (snd ` set al)"
  using set_update_subset [of k v al] by force

lemma distinct_snd_update:
  "distinct (map snd al) \<Longrightarrow> v \<notin> snd ` set al \<Longrightarrow> distinct (map snd (AList.update k v al))"
proof (induction al)
  case Nil
  then show ?case by simp
next
  case (Cons a al)
  obtain k' v' where a: "a = (k', v')" by (cases a)
  show ?case
  proof (cases "k' = k")
    case True
    with Cons a show ?thesis by auto
  next
    case False
    have "v' \<notin> snd ` set (AList.update k v al)"
      using snd_update_subset [of k v al] Cons.prems a by auto
    with False Cons a show ?thesis by auto
  qed
qed

lemma tracked_ok_step:
  assumes "tracked_ok count para margs"
  shows "tracked_ok (count + 1) (para(k \<mapsto> a)) (AList.update k (count + 1) margs)"
proof -
  have fresh: "count + 1 \<notin> snd ` set margs"
    using assms by (fastforce simp: tracked_ok_def)
  have d: "distinct (map snd (AList.update k (count + 1) margs))"
    using assms fresh by (intro distinct_snd_update) (simp_all add: tracked_ok_def)
  have "\<forall>(k', n) \<in> set (AList.update k (count + 1) margs).
          1 \<le> n \<and> n \<le> count + 1 \<and> (para(k \<mapsto> a)) k' \<noteq> None"
    using assms set_update_subset [of k "count + 1" margs]
    by (fastforce simp: tracked_ok_def)
  moreover have "distinct (map fst (AList.update k (count + 1) margs))"
    using assms by (simp add: tracked_ok_def distinct_update)
  ultimately show ?thesis using d by (simp add: tracked_ok_def)
qed

lemma tracked_ok_mono: "tracked_ok count para margs \<Longrightarrow> count \<le> count' \<Longrightarrow> tracked_ok count' para margs"
  by (fastforce simp: tracked_ok_def)

lemma parse_lines_tracked:
  assumes "parse_lines literal_eval count lines (para, margs) = Inr (para', margs')"
    and "tracked_ok count para margs"
  shows "tracked_ok (count + length lines) para' margs'"
  using assms
proof (induction lines arbitrary: count para margs)
  case Nil
  then show ?case by simp
next
  case (Cons raw rest)
  show ?case
  proof (cases "classify (strip raw)")
    case (Inl e)
    with Cons.prems show ?thesis by simp
  next
    case (Inr kind)
    show ?thesis
    proof (cases kind)
      case Comment
      with Inr Cons.prems have "parse_lines literal_eval (count + 1) rest (para, margs) = Inr (para', margs')"
        by simp
      from Cons.IH [OF this tracked_ok_mono [OF Cons.prems(2)]] show ?thesis by simp
    next
      case Sentinel
      with Inr Cons.prems have "para' = para" "margs' = margs" by simp_all
      with Cons.prems(2) show ?thesis by (auto intro: tracked_ok_mono)
    next
      case (Assignment arg_name arg_val)
      show ?thesis
      proof (cases "literal_eval arg_val")
        case (Evaluated v)
        with Assignment Inr Cons.prems
        have "parse_lines literal_eval (count + 1) rest
            (para(arg_name \<mapsto> Lit v), AList.update arg_name (count + 1) margs) = Inr (para', margs')"
          by simp
        from Cons.IH [OF this tracked_ok_step [OF Cons.prems(2)]] show ?thesis by simp
      next
        case Malformed
        with Assignment Inr Cons.prems
        have "parse_lines literal_eval (count + 1) rest
            (para(arg_name \<mapsto> Str arg_val), AList.update arg_name (count + 1) margs) = Inr (para', margs')"
          by simp
        from Cons.IH [OF this tracked_ok_step [OF Cons.prems(2)]] show ?thesis by simp
      next
        case (Raised e)
        with Assignment Inr Cons.prems show ?thesis by simp
      qed
    qed
  qed
qed

lemma parse_inp_file_tracked:
  assumes "parse_inp_file literal_eval text = Inr r"
  shows "tracked_ok (length (inp_file r)) (attrs r) (map_args r)" and "inp_file r = readlines text"
proof -
  obtain para margs where p: "parse_lines literal_eval 0 (readlines text) (Map.empty, []) = Inr (para, margs)"
    and r: "r = \<lparr>inp_file = readlines text, map_args = margs, attrs = para\<rparr>"
    using assms by (auto simp: parse_inp_file_def split: sum.splits if_splits)
  have "tracked_ok 0 Map.empty ([] :: (string \<times> nat) list)" by (simp add: tracked_ok_def)
  from parse_lines_tracked [OF p this] show "tracked_ok (length (inp_file r)) (attrs r) (map_args r)"
    by (simp add: r)
  show "inp_file r = readlines text" by (simp add: r)
qed


lemma write_lines_result:
  assumes "distinct (map snd margs)"
    and "\<forall>(k, n) \<in> set margs. 1 \<le> n \<and> n \<le> length c \<and> getattr k \<noteq> None"
  shows "\<exists>c'. write_lines str_lit getattr margs c = Inr c' \<and> length c' = length c
     \<and> (\<forall>i < length c. i + 1 \<notin> snd ` set margs \<longrightarrow> c' ! i = c ! i)
     \<and> (\<forall>(k, n) \<in> set margs.
           c' ! (n - 1) = rewrite_line (c ! (n - 1)) (py_str str_lit (the (getattr k))))"
  using assms
proof (induction margs arbitrary: c)
  case Nil
  then show ?case by simp
next
  case (Cons a rest)
  obtain k n where a: "a = (k, n)" by (cases a)
  from Cons.prems(2) a have n: "1 \<le> n" "n \<le> length c" and g: "getattr k \<noteq> None" by auto
  then obtain v where v: "getattr k = Some v" by auto
  define c1 where "c1 = c[n - 1 := rewrite_line (c ! (n - 1)) (py_str str_lit v)]"
  have item: "py_item c (int n - 1) = Inr (c ! (n - 1))"
    using n by (simp add: py_item_def nat_diff_distrib')
  have step: "write_lines str_lit getattr (a # rest) c = write_lines str_lit getattr rest c1"
    using n by (simp add: a item v c1_def)
  have d: "distinct (map snd rest)" and fresh: "n \<notin> snd ` set rest"
    using Cons.prems(1) a by auto
  have pre: "\<forall>(k, n) \<in> set rest. 1 \<le> n \<and> n \<le> length c1 \<and> getattr k \<noteq> None"
    using Cons.prems(2) by (auto simp: c1_def)
  from Cons.IH [OF d pre] obtain c' where
    w: "write_lines str_lit getattr rest c1 = Inr c'" and len: "length c' = length c1"
    and keep: "\<forall>i < length c1. i + 1 \<notin> snd ` set rest \<longrightarrow> c' ! i = c1 ! i"
    and new: "\<forall>(k, n) \<in> set rest.
           c' ! (n - 1) = rewrite_line (c1 ! (n - 1)) (py_str str_lit (the (getattr k)))"
    by blast
  have len': "length c' = length c" using len by (simp add: c1_def)
  have keep': "\<forall>i < length c. i + 1 \<notin> snd ` set (a # rest) \<longrightarrow> c' ! i = c ! i"
  proof (intro allI impI)
    fix i assume i: "i < length c" and out: "i + 1 \<notin> snd ` set (a # rest)"
    then have "i + 1 \<noteq> n" and "i + 1 \<notin> snd ` set rest" by (auto simp: a)
    then have "c' ! i = c1 ! i" using keep i by (simp add: c1_def)
    also have "\<dots> = c ! i"
    proof -
      have "n - 1 \<noteq> i" using \<open>i + 1 \<noteq> n\<close> n by linarith
      then show ?thesis by (simp add: c1_def)
    qed
    finally show "c' ! i = c ! i" .
  qed
  have new': "\<forall>(k, n) \<in> set (a # rest).
           c' ! (n - 1) = rewrite_line (c ! (n - 1)) (py_str str_lit (the (getattr k)))"
  proof (intro ballI, clarify)
    fix k' n' assume kn: "(k', n') \<in> set (a # rest)"
    show "c' ! (n' - 1) = rewrite_line (c ! (n' - 1)) (py_str str_lit (the (getattr k')))"
    proof (cases "(k', n') = a")
      case True
      then have [simp]: "k' = k" "n' = n" by (simp_all add: a)
      have "c' ! (n - 1) = c1 ! (n - 1)"
        using keep n fresh by (simp add: c1_def)
      then show ?thesis using n by (simp add: c1_def v)
    next
      case False
      with kn have in_rest: "(k', n') \<in> set rest" by simp
      then have "n' \<noteq> n" using fresh by force
      moreover have "1 \<le> n'" using Cons.prems(2) in_rest by auto
      ultimately have "n - 1 \<noteq> n' - 1" using n by linarith
      then have "c1 ! (n' - 1) = c ! (n' - 1)" by (simp add: c1_def)
      then show ?thesis using new in_rest by auto
    qed
  qed
  show ?case using step w len' keep' new' by simp
qed


lemma write_inp_file_result:
  assumes "tracked_ok (length (inp_file r)) (attrs r) (map_args r)"
  shows "\<exists>r' out. write_inp_file str_lit r = Inr (r', out) \<and> out = concat (inp_file r')
     \<and> length (inp_file r') = length (inp_file r)
     \<and> (\<forall>i < length (inp_file r). i + 1 \<notin> snd ` set (map_args r) \<longrightarrow> inp_file r' ! i = inp_file r ! i)
     \<and> (\<forall>(k, n) \<in> set (map_args r).
           inp_file r' ! (n - 1) = rewrite_line (inp_file r ! (n - 1)) (py_str str_lit (the (attrs r k))))"
proof -
  have d: "distinct (map snd (map_args r))"
    and pre: "\<forall>(k, n) \<in> set (map_args r). 1 \<le> n \<and> n \<le> length (inp_file r) \<and> attrs r k \<noteq> None"
    using assms by (simp_all add: tracked_ok_def)
  from write_lines_result [OF d pre, of str_lit] obtain c' where
    "write_lines str_lit (attrs r) (map_args r) (inp_file r) = Inr c'" "length c' = length (inp_file r)"
    "\<forall>i < length (inp_file r). i + 1 \<notin> snd ` set (map_args r) \<longrightarrow> c' ! i = inp_file r ! i"
    "\<forall>(k, n) \<in> set (map_args r). c' ! (n - 1) = rewrite_line (inp_file r ! (n - 1)) (py_str str_lit (the (attrs r k)))"
    by blast
  then show ?thesis by (simp add: write_inp_file_def)
qed

lemma canonical_unchanged:
  assumes "tracked_ok (length c) getattr margs"
    and "list_all (\<lambda>(k, n). case getattr k of None \<Rightarrow> False
           | Some v \<Rightarrow> c ! (n - 1) = rewrite_line (c ! (n - 1)) (py_str str_lit v)) margs"
    and "length c' = length c"
    and "\<forall>i < length c. i + 1 \<notin> snd ` set margs \<longrightarrow> c' ! i = c ! i"
    and "\<forall>(k, n) \<in> set margs. c' ! (n - 1) = rewrite_line (c ! (n - 1)) (py_str str_lit (the (getattr k)))"
  shows "c' = c"
proof (rule nth_equalityI)
  show "length c' = length c" by fact
next
  fix i assume "i < length c'"
  then have i: "i < length c" using assms(3) by simp
  show "c' ! i = c ! i"
  proof (cases "i + 1 \<in> snd ` set margs")
    case False
    with assms(4) i show ?thesis by simp
  next
    case True
    then obtain k where kn: "(k, i + 1) \<in> set margs" by force
    with assms(1) obtain v where v: "getattr k = Some v" by (fastforce simp: tracked_ok_def)
    from assms(2) kn v have "c ! i = rewrite_line (c ! i) (py_str str_lit v)"
      by (fastforce simp: list_all_iff)
    moreover from assms(5) kn v have "c' ! i = rewrite_line (c ! i) (py_str str_lit v)"
      by fastforce
    ultimately show ?thesis by simp
  qed
qed

lemma tracked_ok_set_attr:
  assumes "tracked_ok count getattr margs"
  shows "tracked_ok count (getattr(k \<mapsto> v)) margs"
  using assms by (fastforce simp: tracked_ok_def)

lemmas registry_eval =
  serialize_parsed_def serialize_changed_def parse_inp_file_def classify_def strip_def isspace_def
  literal_eval_names_def private_name_def write_inp_file_def py_item_def rewrite_line_def
  before_last_eq_def strip_parens_def py_str_def set_attr_def canonical_def

subsection \<open>Parameter file: round trip\<close>

text \<open>
  C1, as stated, fails: the parser accepts the one-line text \<open>A=b\<close>, and the writer
  gives \<open>A= b\<close>, because it always puts a space after the equals sign.
\<close>

theorem serialize_parsed_counterexample:
  "serialize_parsed literal_eval_names (\<lambda>_. []) (''A=b'' @ [NL]) = Inr (''A= b'' @ [NL])
   \<and> ''A= b'' @ [NL] \<noteq> ''A=b'' @ [NL]"
  by (simp add: registry_eval)

text \<open>
  C1, amended. For a text that the parser accepts, the writer (with no assignment in
  between) succeeds; what it writes has the lines of the input, every line that is not
  recorded for a name unchanged, and every recorded line rewritten to the text before its
  last equals sign, \<open>= \<close>, the value as a string without parentheses, and a newline.
  The output is the input whenever every recorded line already has that form.
\<close>

theorem serialize_parsed_lines:
  assumes "parse_inp_file literal_eval text = Inr r"
  shows "\<exists>r' out. write_inp_file str_lit r = Inr (r', out)
     \<and> serialize_parsed literal_eval str_lit text = Inr out
     \<and> out = concat (inp_file r')
     \<and> length (inp_file r') = length (readlines text)
     \<and> (\<forall>i < length (readlines text).
           i + 1 \<notin> snd ` set (map_args r) \<longrightarrow> inp_file r' ! i = readlines text ! i)
     \<and> (\<forall>(k, n) \<in> set (map_args r).
           inp_file r' ! (n - 1) = rewrite_line (readlines text ! (n - 1)) (py_str str_lit (the (attrs r k))))
     \<and> (canonical str_lit r \<longrightarrow> out = text)"
proof -
  have ok: "tracked_ok (length (inp_file r)) (attrs r) (map_args r)"
    and lines: "inp_file r = readlines text"
    using parse_inp_file_tracked [OF assms] by simp_all
  from write_inp_file_result [OF ok, of str_lit] obtain r' out where
    w: "write_inp_file str_lit r = Inr (r', out)" and out: "out = concat (inp_file r')"
    and len: "length (inp_file r') = length (inp_file r)"
    and keep: "\<forall>i < length (inp_file r). i + 1 \<notin> snd ` set (map_args r) \<longrightarrow> inp_file r' ! i = inp_file r ! i"
    and new: "\<forall>(k, n) \<in> set (map_args r).
           inp_file r' ! (n - 1) = rewrite_line (inp_file r ! (n - 1)) (py_str str_lit (the (attrs r k)))"
    by blast
  have ser: "serialize_parsed literal_eval str_lit text = Inr out"
    by (simp add: serialize_parsed_def assms w)
  have "out = text" if "canonical str_lit r"
  proof -
    have "inp_file r' = inp_file r"
      using canonical_unchanged [OF ok _ len keep new] that by (simp add: canonical_def)
    then show ?thesis by (simp add: out lines concat_readlines)
  qed
  with w ser out len keep new show ?thesis unfolding lines by blast
qed

theorem serialize_parsed_lines_witness:
  "parse_inp_file literal_eval_names
      (''# c'' @ [NL] @ ''A = a'' @ [NL] @ ''x (B) = b'' @ [NL] @ ''end'' @ [NL] @ ''C=c'')
     = Inr \<lparr>inp_file = [''# c'' @ [NL], ''A = a'' @ [NL], ''x (B) = b'' @ [NL], ''end'' @ [NL], ''C=c''],
            map_args = [(''A'', 2), (''B'', 3)],
            attrs = [''A'' \<mapsto> Str ''a'', ''B'' \<mapsto> Str ''b'']\<rparr>
   \<and> serialize_parsed literal_eval_names (\<lambda>_. [])
      (''# c'' @ [NL] @ ''A = a'' @ [NL] @ ''x (B) = b'' @ [NL] @ ''end'' @ [NL] @ ''C=c'')
     = Inr (''# c'' @ [NL] @ ''A = a'' @ [NL] @ ''x (B) = b'' @ [NL] @ ''end'' @ [NL] @ ''C=c'')"
proof -
  let ?T = "''# c'' @ [NL] @ ''A = a'' @ [NL] @ ''x (B) = b'' @ [NL] @ ''end'' @ [NL] @ ''C=c''"
  let ?R = "\<lparr>inp_file = [''# c'' @ [NL], ''A = a'' @ [NL], ''x (B) = b'' @ [NL], ''end'' @ [NL], ''C=c''],
            map_args = [(''A'', 2), (''B'', 3)],
            attrs = [''A'' \<mapsto> Str ''a'', ''B'' \<mapsto> Str (''b'' :: string)] :: string \<rightharpoonup> unit py_attr\<rparr>"
  have p: "parse_inp_file literal_eval_names ?T = Inr ?R"
    by (simp add: registry_eval)
  have c: "canonical (\<lambda>_. []) ?R"
    by (simp add: registry_eval)
  from serialize_parsed_lines [OF p, of "\<lambda>_. []"] c
  have "serialize_parsed literal_eval_names (\<lambda>_. []) ?T = Inr ?T" by auto
  with p show ?thesis by simp
qed

subsection \<open>Parameter file: changing one parameter\<close>

text \<open>
  C5, as stated, fails: after parsing the two lines \<open>A=a\<close> and \<open>B=b\<close> and assigning
  \<open>A = 'c'\<close>, the written text is \<open>A= c\<close> and \<open>B= b\<close>: the line of \<open>B\<close>, which was
  not changed, differs from the original line \<open>B=b\<close>.
\<close>

theorem serialize_changed_counterexample:
  "serialize_changed literal_eval_names (\<lambda>_. []) (''A=a'' @ [NL] @ ''B=b'' @ [NL]) ''A'' (Str ''c'')
     = Inr (''A= c'' @ [NL] @ ''B= b'' @ [NL])
   \<and> readlines (''A=a'' @ [NL] @ ''B=b'' @ [NL]) ! 1 = ''B=b'' @ [NL]
   \<and> readlines (''A= c'' @ [NL] @ ''B= b'' @ [NL]) ! 1 = ''B= b'' @ [NL]"
  by (simp add: registry_eval)

text \<open>
  C5, amended. For a registry built by the parser and a recorded name \<open>k\<close> with line
  \<open>n\<close>, writing after the assignment \<open>k = v\<close> succeeds, and what it writes differs from
  what the writer gives without the assignment in line \<open>n\<close> only. That line is the
  original line up to its last equals sign, then \<open>= \<close>, the new value as a string without
  parentheses, and a newline: if the original line has an equals sign, the text up to
  and including the last one is kept. Every line that is not recorded for a name is the
  original line.
\<close>

theorem serialize_changed_frame:
  assumes "parse_inp_file literal_eval text = Inr r" and "(k, n) \<in> set (map_args r)"
  shows "\<exists>r0 out0 r1 out1.
       write_inp_file str_lit r = Inr (r0, out0)
     \<and> write_inp_file str_lit (set_attr r k v) = Inr (r1, out1)
     \<and> serialize_changed literal_eval str_lit text k v = Inr out1
     \<and> out1 = concat (inp_file r1)
     \<and> length (inp_file r1) = length (inp_file r0)
     \<and> (\<forall>i < length (inp_file r0). i \<noteq> n - 1 \<longrightarrow> inp_file r1 ! i = inp_file r0 ! i)
     \<and> inp_file r1 ! (n - 1)
         = before_last_eq (readlines text ! (n - 1)) @ ''= '' @ strip_parens (py_str str_lit v) @ [NL]
     \<and> (CHR ''='' \<in> set (readlines text ! (n - 1)) \<longrightarrow>
           prefix (before_last_eq (readlines text ! (n - 1)) @ ''='') (readlines text ! (n - 1)))
     \<and> (\<forall>i < length (readlines text).
           i + 1 \<notin> snd ` set (map_args r) \<longrightarrow> inp_file r1 ! i = readlines text ! i)"
proof -
  let ?s = "set_attr r k v"
  have ok: "tracked_ok (length (inp_file r)) (attrs r) (map_args r)"
    and lines: "inp_file r = readlines text"
    using parse_inp_file_tracked [OF assms(1)] by simp_all
  have ok': "tracked_ok (length (inp_file ?s)) (attrs ?s) (map_args ?s)"
    using tracked_ok_set_attr [OF ok] by (simp add: set_attr_def)
  from write_inp_file_result [OF ok, of str_lit] obtain r0 out0 where
    w0: "write_inp_file str_lit r = Inr (r0, out0)"
    and len0: "length (inp_file r0) = length (inp_file r)"
    and keep0: "\<forall>i < length (inp_file r). i + 1 \<notin> snd ` set (map_args r) \<longrightarrow> inp_file r0 ! i = inp_file r ! i"
    and new0: "\<forall>(k, n) \<in> set (map_args r).
           inp_file r0 ! (n - 1) = rewrite_line (inp_file r ! (n - 1)) (py_str str_lit (the (attrs r k)))"
    by blast
  from write_inp_file_result [OF ok', of str_lit] obtain r1 out1 where
    w1: "write_inp_file str_lit ?s = Inr (r1, out1)" and out1: "out1 = concat (inp_file r1)"
    and len1: "length (inp_file r1) = length (inp_file r)"
    and keep1: "\<forall>i < length (inp_file r). i + 1 \<notin> snd ` set (map_args r) \<longrightarrow> inp_file r1 ! i = inp_file r ! i"
    and new1: "\<forall>(k', n') \<in> set (map_args r).
           inp_file r1 ! (n' - 1) = rewrite_line (inp_file r ! (n' - 1)) (py_str str_lit (the (((attrs r)(k \<mapsto> v)) k')))"
    by (auto simp: set_attr_def)
  have ser: "serialize_changed literal_eval str_lit text k v = Inr out1"
    by (simp add: serialize_changed_def assms(1) w1)
  have dfst: "distinct (map fst (map_args r))" using ok by (simp add: tracked_ok_def)
  have others: "inp_file r1 ! i = inp_file r0 ! i" if i: "i < length (inp_file r0)" and ne: "i \<noteq> n - 1" for i
  proof (cases "i + 1 \<in> snd ` set (map_args r)")
    case False
    with keep0 keep1 i len0 show ?thesis by simp
  next
    case True
    then obtain k' where kn': "(k', i + 1) \<in> set (map_args r)" by force
    have "1 \<le> n" using ok assms(2) by (fastforce simp: tracked_ok_def)
    with ne have "i + 1 \<noteq> n" by linarith
    then have "k' \<noteq> k"
      using dfst kn' assms(2) by (metis eq_key_imp_eq_value)
    then have "((attrs r)(k \<mapsto> v)) k' = attrs r k'" by simp
    with new0 new1 kn' show ?thesis by fastforce
  qed
  have line: "inp_file r1 ! (n - 1)
         = before_last_eq (readlines text ! (n - 1)) @ ''= '' @ strip_parens (py_str str_lit v) @ [NL]"
    using new1 assms(2) by (fastforce simp: rewrite_line_def lines)
  have pre: "prefix (before_last_eq l @ ''='') l" if "CHR ''='' \<in> set l" for l
    using line_decompose [OF that] by (metis append.assoc prefixI)
  have c5: "length (inp_file r1) = length (inp_file r0)" using len0 len1 by simp
  have c6: "\<forall>i < length (inp_file r0). i \<noteq> n - 1 \<longrightarrow> inp_file r1 ! i = inp_file r0 ! i"
    using others by blast
  have c8: "CHR ''='' \<in> set (readlines text ! (n - 1)) \<longrightarrow>
           prefix (before_last_eq (readlines text ! (n - 1)) @ ''='') (readlines text ! (n - 1))"
    using pre by blast
  have c9: "\<forall>i < length (readlines text).
           i + 1 \<notin> snd ` set (map_args r) \<longrightarrow> inp_file r1 ! i = readlines text ! i"
    using keep1 by (simp add: lines)
  from w0 w1 ser out1 c5 c6 line c8 c9 show ?thesis by blast
qed


theorem serialize_changed_frame_witness:
  "parse_inp_file literal_eval_names (''A = a'' @ [NL] @ ''x (B) = b'' @ [NL])
     = Inr \<lparr>inp_file = [''A = a'' @ [NL], ''x (B) = b'' @ [NL]],
            map_args = [(''A'', 1), (''B'', 2)],
            attrs = [''A'' \<mapsto> Str ''a'', ''B'' \<mapsto> Str ''b'']\<rparr>
   \<and> serialize_changed literal_eval_names (\<lambda>_. [])
        (''A = a'' @ [NL] @ ''x (B) = b'' @ [NL]) ''B'' (Str ''c'')
     = Inr (''A = a'' @ [NL] @ ''x (B) = c'' @ [NL])"
proof -
  let ?T = "''A = a'' @ [NL] @ ''x (B) = b'' @ [NL]"
  let ?R = "\<lparr>inp_file = [''A = a'' @ [NL], ''x (B) = b'' @ [NL]],
            map_args = [(''A'', 1), (''B'', 2)],
            attrs = [''A'' \<mapsto> Str ''a'', ''B'' \<mapsto> Str (''b'' :: string)] :: string \<rightharpoonup> unit py_attr\<rparr>"
  have p: "parse_inp_file literal_eval_names ?T = Inr ?R"
    by (simp add: registry_eval)
  have m: "(''B'', 2) \<in> set (map_args ?R)" by simp
  have w: "write_inp_file (\<lambda>_. []) ?R = Inr (?R, ?T)"
    by (simp add: registry_eval)
  from serialize_changed_frame [OF p m, of "\<lambda>_. []" "Str ''c''"]
  obtain r0 out0 r1 out1 where
    w0: "write_inp_file (\<lambda>_. []) ?R = Inr (r0, out0)"
    and w1: "write_inp_file (\<lambda>_. []) (set_attr ?R ''B'' (Str ''c'')) = Inr (r1, out1)"
    and ser: "serialize_changed literal_eval_names (\<lambda>_. []) ?T ''B'' (Str ''c'') = Inr out1"
    and out1: "out1 = concat (inp_file r1)"
    and len: "length (inp_file r1) = length (inp_file r0)"
    and same: "\<forall>i < length (inp_file r0). i \<noteq> 2 - 1 \<longrightarrow> inp_file r1 ! i = inp_file r0 ! i"
    and line: "inp_file r1 ! (2 - 1)
         = before_last_eq (readlines ?T ! (2 - 1)) @ ''= '' @ strip_parens (py_str (\<lambda>_. []) (Str ''c'' :: unit py_attr)) @ [NL]"
    by blast
  from w w0 have r0: "inp_file r0 = [''A = a'' @ [NL], ''x (B) = b'' @ [NL]]" by auto
  have l2: "length (inp_file r1) = 2" using len r0 by simp
  have first: "inp_file r1 ! 0 = ''A = a'' @ [NL]" using same r0 by simp
  have second: "inp_file r1 ! 1 = ''x (B) = c'' @ [NL]"
    using line by (simp add: registry_eval)
  have "inp_file r1 = [inp_file r1 ! 0, inp_file r1 ! 1]"
    using l2 by (intro nth_equalityI) (auto simp: less_Suc_eq numeral_2_eq_2)
  then have "out1 = ''A = a'' @ [NL] @ ''x (B) = c'' @ [NL]"
    using first second out1 by simp
  with p ser show ?thesis by simp
qed

subsection \<open>Dispersion check\<close>

lemma np_min_eq: "xs \<noteq> [] \<Longrightarrow> np_min xs = Inr (Min (set xs))"
  by (cases xs) (simp_all add: np_min_def Min.set_eq_fold [symmetric])

lemma gridpoints_row:
  assumes "c \<in> {0..4}"
  shows "py_item gridpoints_per_wavelength c = Inr (gridpoints_per_wavelength ! nat c)"
    and "length (gridpoints_per_wavelength ! nat c) = 6"
    and "\<forall>p \<in> set (gridpoints_per_wavelength ! nat c). 0 < p"
proof -
  from assms have c: "c = 0 \<or> c = 1 \<or> c = 2 \<or> c = 3 \<or> c = 4" by auto
  show "py_item gridpoints_per_wavelength c = Inr (gridpoints_per_wavelength ! nat c)"
    using assms by (simp add: py_item_def gridpoints_per_wavelength_def)
  show "length (gridpoints_per_wavelength ! nat c) = 6"
    using c by (auto simp: gridpoints_per_wavelength_def)
  show "\<forall>p \<in> set (gridpoints_per_wavelength ! nat c). 0 < p"
    using c by (auto simp: gridpoints_per_wavelength_def)
qed

lemma nonzero_full: "v \<noteq> 0 \<Longrightarrow> nonzero (full ny nx v) = replicate (ny * nx) v"
  by (simp add: nonzero_def full_def)

lemma Min_replicate: "0 < n \<Longrightarrow> Min (set (replicate n (v::real))) = v"
  by simp

lemma demo_nonzero:
  "nonzero (vp demo_model) = replicate (174 * 500) 3500"
  "nonzero (vs demo_model) = replicate (174 * 500) (3500 / 1.7)"
  by (simp_all add: demo_model_def nonzero_full)

lemma check_max_frequency_eq:
  assumes "c \<in> {0..4}" and "half_order fd_order = h" and "h \<in> {1..6}" and "0 < dh"
    and "nonzero (vp m) \<noteq> []" and "nonzero (vs m) \<noteq> []"
  shows "check_max_frequency vrb m c fd_order dh =
     Inr (print_1 vrb
            [Text ''Check max source frequency:'',
             Value (TAB # ''min Vs: '') (Finite (Min (set (nonzero (vs m))))) '' m/s'',
             Value (TAB # ''min Vp: '') (Finite (Min (set (nonzero (vp m))))) '' m/s'',
             Value (TAB # ''Number of gridpoints per minimum wavelength = '')
               (Finite (gridpoints_per_wavelength ! nat c ! nat (h - 1))) '''',
             Value (TAB # ''Maximum source wavelet frequency = '')
               (Finite (min (Min (set (nonzero (vp m)))) (Min (set (nonzero (vs m))))
                   / (gridpoints_per_wavelength ! nat c ! nat (h - 1) * dh))) '' Hz''],
          PyNone)"
proof -
  let ?row = "gridpoints_per_wavelength ! nat c"
  have item: "py_item ?row (half_order fd_order - 1) = Inr (?row ! nat (h - 1))"
    using assms(2,3) gridpoints_row(2) [OF assms(1)] by (simp add: py_item_def)
  have "?row ! nat (h - 1) \<in> set ?row"
    using assms(3) gridpoints_row(2) [OF assms(1)] by (intro nth_mem) auto
  then have p: "0 < ?row ! nat (h - 1)" using gridpoints_row(3) [OF assms(1)] by blast
  then have nz: "?row ! nat (h - 1) * dh \<noteq> 0" using assms(4) by simp
  have mn: "\<And>a b :: real. (if a < b then a else b) = min a b" by (simp add: min_def)
  show ?thesis
    unfolding check_max_frequency_def
    by (simp only: np_min_eq [OF assms(5)] np_min_eq [OF assms(6)] gridpoints_row(1) [OF assms(1)]
        item sum.case Let_def nz if_False mn)
qed





subsection \<open>Workflow file\<close>












subsection \<open>Runs: auxiliary facts\<close>

lemma written_paths_create_folders: "written_paths (create_folders p) = []"
  by (simp add: written_paths_def create_folders_def List.map_filter_simps)

lemma launches_create_folders: "\<not> launches (create_folders p)"
  by (simp add: launches_def create_folders_def)

lemma engine_checks_decomp:
  assumes "check_domain_decomp (int (n_cols (vp m))) (int (n_rows (vp m))) (NPROCX d) (NPROCY d) \<noteq> Inr ()"
  shows "\<exists>e. engine_checks d m s r = Inl e"
proof -
  obtain e where "check_domain_decomp (int (n_cols (vp m))) (int (n_rows (vp m))) (NPROCX d) (NPROCY d) = Inl e"
    using assms by (cases "check_domain_decomp (int (n_cols (vp m))) (int (n_rows (vp m))) (NPROCX d) (NPROCY d)") auto
  then show ?thesis
    by (auto simp: engine_checks_def set_model_def Let_def split: sum.splits)
qed

lemma engine_decomp:
  assumes "check_domain_decomp (int (n_cols (vp m))) (int (n_rows (vp m))) (NPROCX d) (NPROCY d) \<noteq> Inr ()"
  shows "\<exists>e. engine d m src rcv run_command disable = (create_folders (save_folder d), Inl e)"
proof (cases rcv)
  case None
  then show ?thesis by (simp add: engine_def)
next
  case (Some r)
  show ?thesis
  proof (cases src)
    case None
    with Some show ?thesis by (simp add: engine_def)
  next
    case (Some s)
    have "NPROCX (set_paths d) = NPROCX d" "NPROCY (set_paths d) = NPROCY d"
      by (simp_all add: set_paths_def)
    with assms obtain e where "engine_checks (set_paths d) m s r = Inl e"
      using engine_checks_decomp [of m "set_paths d" s r] by auto
    with Some \<open>rcv = Some r\<close> show ?thesis by (simp add: engine_def)
  qed
qed

lemma wide_nonzero:
  "nonzero (vp wide_model) \<noteq> []" "nonzero (vs wide_model) \<noteq> []"
  by (simp_all add: wide_model_def nonzero_full)

lemma demo_fields:
  "NPROCX (demo_denise st) = 5" "NPROCY (demo_denise st) = 3" "FD_ORDER (demo_denise st) = 6"
  "max_relative_error (demo_denise st) = 0" "fwi_stages (demo_denise st) = st"
  "save_folder (demo_denise st) = ''./outputs/''"
  "filename_workflow (demo_denise st) = ''./outputs/seis_fwi.inp''"
  by (simp_all add: demo_denise_def set_paths_def path_join_def)

lemma wide_checks:
  "engine_checks (set_paths ((demo_denise st)\<lparr>MODE := md\<rparr>)) wide_model demo_src demo_rec
     = Inl (AssertionError ''Error!!! Make sure NX % NPROCX = 0'')"
proof -
  let ?d = "set_paths ((demo_denise st)\<lparr>MODE := md\<rparr>)"
  let ?d1 = "(set_model ?d wide_model)\<lparr>NREC := length (rec_x demo_rec), NSRC := length (src_x demo_src)\<rparr>"
  have h: "half_order 6 = 3" by (simp add: half_order_def)
  have fields: "model ?d1 = wide_model" "max_relative_error ?d1 = 0" "FD_ORDER ?d1 = 6" "DH ?d1 = 20"
    "NX ?d1 = 501" "NY ?d1 = 174" "NPROCX ?d1 = 5" "NPROCY ?d1 = 3"
    by (simp_all add: set_model_def set_paths_def demo_denise_def wide_model_def full_def)
  have cmf: "\<exists>out. check_max_frequency v wide_model 0 6 20 = Inr out" for v
    by (subst check_max_frequency_eq [OF _ h]) (simp_all add: wide_nonzero)
  have dec: "check_domain_decomp 501 174 5 3 = Inl (AssertionError ''Error!!! Make sure NX % NPROCX = 0'')"
    by (simp add: check_domain_decomp_def check_def)
  show ?thesis
    unfolding engine_checks_def Let_def fields
    using cmf [of "verbose ?d1"] by (auto simp: dec)
qed

subsection \<open>Runs: the domain decomposition check\<close>

text \<open>
  In \<open>_engine\<close> the check precedes every write: whenever the domain decomposition check
  fails for the shape of the model and the process grid of the object, a forward run
  raises, has written no file and has not started the external program.
\<close>

lemma forward_decomposition_failure:
  assumes "check_domain_decomp (int (n_cols (vp m))) (int (n_rows (vp m))) (NPROCX d) (NPROCY d) \<noteq> Inr ()"
  shows "\<exists>e. snd (forward d m src rcv run_command disable) = Inl e"
    and "written_paths (fst (forward d m src rcv run_command disable)) = []"
    and "\<not> launches (fst (forward d m src rcv run_command disable))"
proof -
  obtain e0 where f: "forward d m src rcv run_command disable = (create_folders (save_folder d), Inl e0)"
    using engine_decomp [of m "d\<lparr>MODE := 0\<rparr>" src rcv run_command disable] assms
    by (auto simp: forward_def)
  show "\<exists>e. snd (forward d m src rcv run_command disable) = Inl e" using f by simp
  show "written_paths (fst (forward d m src rcv run_command disable)) = []"
    using f by (simp add: written_paths_create_folders)
  show "\<not> launches (fst (forward d m src rcv run_command disable))"
    using f by (simp add: launches_create_folders)
qed

text \<open>
  C4. The claim is that in every run, forward or inversion, the domain decomposition
  check comes before any output file is written, the workflow file included, so that a
  failing check leaves no file behind. An inversion run does not do so: \<open>fwi\<close> writes
  the workflow file and only then calls \<open>_engine\<close>, where the check is. With one stage
  and a model of 501 columns on 5 processes (an existing save folder) the inversion run
  ends with the assertion error of the check and has not started the external program,
  but the workflow file has been written twice by then (the header, and the row of the
  stage). The forward run of the same object and model raises the same error and has
  written nothing.
\<close>

theorem fwi_writes_workflow_before_check:
  "snd (fwi str_int (demo_denise [stage_of_args demo_args]) wide_model
          (Some demo_src) (Some demo_rec) None False)
     = Inl (AssertionError ''Error!!! Make sure NX % NPROCX = 0'')
   \<and> written_paths (fst (fwi str_int (demo_denise [stage_of_args demo_args]) wide_model
          (Some demo_src) (Some demo_rec) None False))
     = [''./outputs/seis_fwi.inp'', ''./outputs/seis_fwi.inp'']
   \<and> \<not> launches (fst (fwi str_int (demo_denise [stage_of_args demo_args]) wide_model
          (Some demo_src) (Some demo_rec) None False))
   \<and> snd (forward (demo_denise [stage_of_args demo_args]) wide_model
          (Some demo_src) (Some demo_rec) None False)
     = Inl (AssertionError ''Error!!! Make sure NX % NPROCX = 0'')
   \<and> written_paths (fst (forward (demo_denise [stage_of_args demo_args]) wide_model
          (Some demo_src) (Some demo_rec) None False)) = []"
proof -
  let ?D = "demo_denise [stage_of_args demo_args]"
  have e: "engine (?D\<lparr>MODE := md\<rparr>) wide_model (Some demo_src) (Some demo_rec) None False
      = (create_folders ''./outputs/'', Inl (AssertionError ''Error!!! Make sure NX % NPROCX = 0''))"
    for md
    by (simp add: engine_def wide_checks demo_fields)
  have f: "fwi str_int ?D wide_model (Some demo_src) (Some demo_rec) None False
      = (write_denise_workflow_header ''./outputs/seis_fwi.inp''
           # map (write_denise_workflow str_int ''./outputs/seis_fwi.inp'') [stage_of_args demo_args]
           @ create_folders ''./outputs/'',
         Inl (AssertionError ''Error!!! Make sure NX % NPROCX = 0''))"
    by (simp add: fwi_def e demo_fields)
  have g: "forward ?D wide_model (Some demo_src) (Some demo_rec) None False
      = (create_folders ''./outputs/'', Inl (AssertionError ''Error!!! Make sure NX % NPROCX = 0''))"
    by (simp add: forward_def e)
  show ?thesis
    unfolding f g
    by (simp add: written_paths_def launches_def write_denise_workflow_header_def
        write_denise_workflow_def create_folders_def List.map_filter_simps)
qed

subsection \<open>Runs: the empty schedule\<close>

text \<open>
  C9. With no stage in \<open>fwi_stages\<close>, \<open>fwi\<close> only sets \<open>MODE\<close> and prints the warning
  that tells the user to append a stage: it writes no file, the workflow file included,
  and does not start the external program.
\<close>

theorem fwi_empty_schedule:
  assumes "fwi_stages d = []"
  shows "fwi str d m src rcv run_command disable
       = ([Print ''WARNING! Denise.fwi_stages is empty! Append api.StageFWI() to it.''],
          Inr (d\<lparr>MODE := 1\<rparr>))
     \<and> written_paths (fst (fwi str d m src rcv run_command disable)) = []
     \<and> \<not> launches (fst (fwi str d m src rcv run_command disable))"
  using assms by (simp add: fwi_def written_paths_def launches_def List.map_filter_simps)


theorem fwi_empty_schedule_witness:
  "fwi_stages (demo_denise ([] :: int stage list)) = []
   \<and> fwi str_int (demo_denise []) demo_model (Some demo_src) (Some demo_rec) None False
       = ([Print ''WARNING! Denise.fwi_stages is empty! Append api.StageFWI() to it.''],
          Inr ((demo_denise [])\<lparr>MODE := 1\<rparr>))
   \<and> written_paths (fst (fwi str_int (demo_denise []) demo_model
                           (Some demo_src) (Some demo_rec) None False)) = []
   \<and> \<not> launches (fst (fwi str_int (demo_denise []) demo_model
                           (Some demo_src) (Some demo_rec) None False))"
proof -
  have e: "fwi_stages (demo_denise ([] :: int stage list)) = []" by (simp add: demo_fields)
  from fwi_empty_schedule [OF e, of str_int demo_model "Some demo_src" "Some demo_rec" None False] e
  show ?thesis by blast
qed

subsection \<open>Runs: a forward run of the demo\<close>

text \<open>
  For comparison, the forward run of the demo (two sources, three receivers): the checks
  pass, the time step is the double 0.0025 with 2400 steps for \<open>TIME = 6\<close>, the model, source,
  receiver and parameter files are written in this order, and the external program is
  started on 15 processes.
\<close>

lemma np_max_replicate: "0 < n \<Longrightarrow> np_max (replicate n v) = Inr v"
proof -
  have "fold max (replicate k v) v = v" for k by (induction k) simp_all
  then show "0 < n \<Longrightarrow> np_max (replicate n v) = Inr v"
    by (cases n) (simp_all add: np_max_def)
qed

lemma split_on_Cons_case:
  "split_on sep (c # cs) =
     (if c = sep then [] # split_on sep cs
      else (case split_on sep cs of [] \<Rightarrow> [[c]] | p # ps \<Rightarrow> (c # p) # ps))"
  by (cases "split_on sep cs") (simp_all add: split_on_nonempty)

lemma parent_of_demo:
  "parent_of ''./outputs/receiver/receivers'' = ''./outputs/receiver''"
  "parent_of ''./outputs/source/sources.dat'' = ''./outputs/source''"
  by (simp_all add: parent_of_def split_on_Cons_case del: split_on.simps(2))

lemma forward_demo:
  "written_paths (fst (forward (demo_denise ([] :: int stage list)) demo_model
       (Some demo_src) (Some demo_rec) None False))
     = [''./outputs/start/model.vp'', ''./outputs/start/model.vs'', ''./outputs/start/model.rho'',
        ''./outputs/receiver/receivers.dat'', ''./outputs/source/sources.dat'',
        ''./outputs/receiver/rec_x.npy'', ''./outputs/receiver/rec_y.npy'',
        ''./outputs/source/src_x.npy'', ''./outputs/source/src_y.npy'', ''./outputs/seis.inp'']"
  "launches (fst (forward (demo_denise ([] :: int stage list)) demo_model
       (Some demo_src) (Some demo_rec) None False))"
  "map_sum id (\<lambda>d. (DT d, NT d, NX d, NY d)) (snd (forward (demo_denise ([] :: int stage list)) demo_model
       (Some demo_src) (Some demo_rec) None False)) = Inr (Some (5764607523034235 / 2305843009213693952), Some 2400, 500, 174)"
proof -
  let ?D = "demo_denise ([] :: int stage list)"
  let ?d = "set_paths (?D\<lparr>MODE := 0\<rparr>)"
  let ?d1 = "(set_model ?d demo_model)\<lparr>NREC := length (rec_x demo_rec), NSRC := length (src_x demo_src)\<rparr>"
  define d2 where "d2 = ?d1\<lparr>DT := Some (5764607523034235 / 2305843009213693952), NT := Some 2400\<rparr>"
  have h: "half_order 6 = 3" by (simp add: half_order_def)
  have fields: "model ?d1 = demo_model" "max_relative_error ?d1 = 0" "FD_ORDER ?d1 = 6" "DH ?d1 = 20"
    "NX ?d1 = 500" "NY ?d1 = 174" "NPROCX ?d1 = 5" "NPROCY ?d1 = 3" "MODE ?d1 = 0" "TIME ?d1 = 6"
    by (simp_all add: set_model_def set_paths_def demo_denise_def demo_model_def full_def)
  have cmf: "\<exists>out. check_max_frequency v demo_model 0 6 20 = Inr out" for v
    by (subst check_max_frequency_eq [OF _ h]) (simp_all add: demo_nonzero)
  have dec: "check_domain_decomp 500 174 5 3 = Inr ()"
    by (simp add: check_domain_decomp_def check_def)
  have mx: "np_max (nonzero (vp demo_model)) = Inr 3500"
    "np_max (nonzero (vs demo_model)) = Inr (3500 / 1.7)"
    by (simp_all add: demo_nonzero np_max_replicate)
  have cs: "check_stability 0 6 20 3500 (3500 / 1.7) = Inr (5764607523034235 / 2305843009213693952)"
    by (rule check_stability_demo) simp
  have nt: "rounds_to (6 / (5764607523034235 / 2305843009213693952)) 2400"
    by (rule rounds_toI [where k = 41 and m = "5277655813324800"]) simp_all
  have m0: "(0::int) < 1" by simp
  have "compute_dt ?d1 = Inr (?d1\<lparr>DT := Some (5764607523034235 / 2305843009213693952), NT := Some (py_int 2400)\<rparr>)"
    unfolding compute_dt_def fields mx
    by (simp only: m0 if_True sum.case cs fl_eq [OF nt])
  then have cdt: "compute_dt ?d1 = Inr d2"
    by (simp add: py_int_def d2_def)
  have chk: "engine_checks ?d demo_model demo_src demo_rec = Inr d2"
    unfolding engine_checks_def Let_def fields
    using cmf [of "verbose ?d1"] by (auto simp: dec cdt)
  have d2f: "N_STREAMER d2 = 0" "MFILE d2 = ''./outputs/start/model''"
    "REC_FILE d2 = ''./outputs/receiver/receivers''" "SOURCE_FILE d2 = ''./outputs/source/sources.dat''"
    "filename d2 = ''./outputs/seis.inp''" "DT d2 = Some (5764607523034235 / 2305843009213693952)" "NT d2 = Some 2400"
    "NX d2 = 500" "NY d2 = 174"
    by (simp_all add: d2_def set_model_def set_paths_def demo_denise_def path_join_def demo_model_def full_def)
  have wr: "engine_writes d2 demo_src =
     ([WriteData ''./outputs/start/model.vp'', WriteData ''./outputs/start/model.vs'',
       WriteData ''./outputs/start/model.rho'',
       WriteData ''./outputs/receiver/receivers.dat'', WriteData ''./outputs/source/sources.dat'',
       WriteData ''./outputs/receiver/rec_x.npy'', WriteData ''./outputs/receiver/rec_y.npy'',
       WriteData ''./outputs/source/src_x.npy'', WriteData ''./outputs/source/src_y.npy'',
       WriteData ''./outputs/seis.inp''], d2)"
    by (simp add: engine_writes_def d2f write_model_def write_src_rec_def parent_of_demo)
  have e: "forward ?D demo_model (Some demo_src) (Some demo_rec) None False
     = (create_folders (save_folder (?D\<lparr>MODE := 0\<rparr>)) @ fst (engine_writes d2 demo_src)
        @ [Print (command_line d2 None), Launch (command_line d2 None), PrintDone], Inr d2)"
    by (simp add: forward_def engine_def chk wr)
  show "written_paths (fst (forward ?D demo_model (Some demo_src) (Some demo_rec) None False))
     = [''./outputs/start/model.vp'', ''./outputs/start/model.vs'', ''./outputs/start/model.rho'',
        ''./outputs/receiver/receivers.dat'', ''./outputs/source/sources.dat'',
        ''./outputs/receiver/rec_x.npy'', ''./outputs/receiver/rec_y.npy'',
        ''./outputs/source/src_x.npy'', ''./outputs/source/src_y.npy'', ''./outputs/seis.inp'']"
    unfolding e wr by (simp add: written_paths_def create_folders_def List.map_filter_simps)
  show "launches (fst (forward ?D demo_model (Some demo_src) (Some demo_rec) None False))"
    unfolding e by (simp add: launches_def)
  show "map_sum id (\<lambda>d. (DT d, NT d, NX d, NY d)) (snd (forward ?D demo_model
       (Some demo_src) (Some demo_rec) None False)) = Inr (Some (5764607523034235 / 2305843009213693952), Some 2400, 500, 174)"
    unfolding e by (simp add: d2f)
qed

lemma demo_command:
  "command_line (demo_denise ([] :: int stage list)) None
     = ''mpirun -np 15  ./bin/denise  ./outputs/seis.inp ./outputs/seis_fwi.inp''"
  by (simp add: command_line_def demo_denise_def set_paths_def path_join_def str_int_def
      str_nat.simps [of 15] str_nat.simps [of "Suc 0"] digit_char_def)


end
